theory Spec2Isabelle
  imports Main "HOL-Library.Word" "HOL-Library.Code_Target_Numeral"
begin

section \<open>JavaScript values\<close>

text \<open>
  A JavaScript string is a sequence of 16-bit code units. \<open>str\<close> embeds an ASCII
  literal of the theory text into that type.
\<close>

type_synonym jschar = "16 word"
type_synonym jsstring = "jschar list"

definition str :: "string \<Rightarrow> jsstring" where
  "str s = map (\<lambda>c. of_nat (of_char c)) s"

text \<open>
  Numbers are the doubles of IEEE 754: \<open>Intg n\<close> is the double that is the integer
  \<open>n\<close>; \<open>Dbl m e\<close>, with \<open>m\<close> odd and \<open>e\<close> negative, is the double \<open>m * 2^e\<close>, which
  is no integer; \<open>NaN\<close>; and \<open>Infinity neg\<close>, negative when \<open>neg\<close> holds. The two
  zeros are the one number \<open>Intg 0\<close>, as \<open>===\<close> has them. Which of these terms are
  doubles is said by \<open>is_double\<close> below.
\<close>

datatype jsnum = Intg int | Dbl int int | NaN | Infinity bool

datatype jsval =
    JUndefined
  | JNull
  | JBool bool
  | JNum jsnum
  | JStr jsstring
  | JArr "jsval list"
  | JObj "(jsstring \<times> jsval) list"

text \<open>ToBoolean, as used by every \<open>if (x)\<close>, \<open>x ? a : b\<close> and \<open>!x\<close> of the sources.\<close>

fun truthy :: "jsval \<Rightarrow> bool" where
  "truthy JUndefined = False"
| "truthy JNull = False"
| "truthy (JBool b) = b"
| "truthy (JNum (Intg n)) = (n \<noteq> 0)"
| "truthy (JNum (Dbl m e)) = (m \<noteq> 0)"
| "truthy (JNum NaN) = False"
| "truthy (JNum (Infinity neg)) = True"
| "truthy (JStr s) = (s \<noteq> [])"
| "truthy (JArr xs) = True"
| "truthy (JObj kvs) = True"

text \<open>Decimal digits of a natural number, as \<open>String(n)\<close> prints an array index.\<close>

fun show_nat :: "nat \<Rightarrow> jsstring" where
  "show_nat n =
     (if n < 10 then [of_nat (48 + n)]
      else show_nat (n div 10) @ [of_nat (48 + n mod 10)])"

declare show_nat.simps [simp del]

subsection \<open>Objects\<close>

text \<open>
  An object is the list of its own enumerable properties in insertion order.
  \<open>CreateDataProperty\<close> overwrites the value of a key that is present, in place, and
  appends a new key otherwise. (JavaScript lists the keys that are array indices
  first, in ascending order, wherever they were inserted; here they stay where
  they were inserted. The properties below read objects key by key, or compare
  an object with itself after a round trip, so that they do not depend on the
  place of a key.)
\<close>

fun CreateDataProperty ::
  "(jsstring \<times> jsval) list \<Rightarrow> jsstring \<Rightarrow> jsval \<Rightarrow> (jsstring \<times> jsval) list" where
  "CreateDataProperty [] k v = [(k, v)]"
| "CreateDataProperty ((k', v') # kvs) k v =
     (if k' = k then (k, v) # kvs else (k', v') # CreateDataProperty kvs k v)"

text \<open>
  The own enumerable properties a spread \<open>{...src}\<close> copies: those of an object, the
  indexed elements of an array, the indexed characters of a string, and none of
  \<open>undefined\<close>, \<open>null\<close>, a boolean or a number.
\<close>

fun own_props :: "jsval \<Rightarrow> (jsstring \<times> jsval) list" where
  "own_props (JObj kvs) = kvs"
| "own_props (JArr xs) = zip (map show_nat [0..<length xs]) xs"
| "own_props (JStr s) = zip (map show_nat [0..<length s]) (map (\<lambda>c. JStr [c]) s)"
| "own_props v = []"

definition object_spread ::
  "(jsstring \<times> jsval) list \<Rightarrow> jsval \<Rightarrow> (jsstring \<times> jsval) list" where
  "object_spread tgt src = fold (\<lambda>(k, v) t. CreateDataProperty t k v) (own_props src) tgt"

text \<open>Property read \<open>o[k]\<close> on the property list of an object.\<close>

definition Get :: "(jsstring \<times> jsval) list \<Rightarrow> jsstring \<Rightarrow> jsval" where
  "Get kvs k = (case map_of kvs k of None \<Rightarrow> JUndefined | Some v \<Rightarrow> v)"

text \<open>A well-formed property list names each key once.\<close>

definition wf_props :: "(jsstring \<times> jsval) list \<Rightarrow> bool" where
  "wf_props kvs = distinct (map fst kvs)"

section \<open>Built-in functions of the platform\<close>

text \<open>
  The functions of ECMAScript and of the browser that the codec calls, each written
  from its specification. A function that can throw returns \<open>Inl\<close> of the exception.
\<close>

datatype jsexn = SyntaxError | URIError | InvalidCharacterError | TypeError | RangeError

definition prepend :: "jsstring \<Rightarrow> jsexn + jsstring \<Rightarrow> jsexn + jsstring" where
  "prepend p r = (case r of Inl e \<Rightarrow> Inl e | Inr t \<Rightarrow> Inr (p @ t))"

definition hex_upper :: "nat \<Rightarrow> jschar" where
  "hex_upper d = of_nat (if d < 10 then 48 + d else 55 + d)"

definition hex_lower :: "nat \<Rightarrow> jschar" where
  "hex_lower d = of_nat (if d < 10 then 48 + d else 87 + d)"

definition hex_value :: "jschar \<Rightarrow> nat option" where
  "hex_value c =
     (let n = unat c in
      if 48 \<le> n \<and> n \<le> 57 then Some (n - 48)
      else if 65 \<le> n \<and> n \<le> 70 then Some (n - 55)
      else if 97 \<le> n \<and> n \<le> 102 then Some (n - 87)
      else None)"

definition hex_octet :: "jschar \<Rightarrow> jschar \<Rightarrow> nat option" where
  "hex_octet h l =
     (case hex_value h of None \<Rightarrow> None
      | Some a \<Rightarrow> (case hex_value l of None \<Rightarrow> None | Some b \<Rightarrow> Some (16 * a + b)))"

subsection \<open>encodeURIComponent and decodeURIComponent\<close>

definition uri_unescaped :: "nat \<Rightarrow> bool" where
  "uri_unescaped n \<longleftrightarrow>
     (48 \<le> n \<and> n \<le> 57) \<or> (65 \<le> n \<and> n \<le> 90) \<or> (97 \<le> n \<and> n \<le> 122)
     \<or> n = 45 \<or> n = 95 \<or> n = 46 \<or> n = 33 \<or> n = 126 \<or> n = 42 \<or> n = 39 \<or> n = 40 \<or> n = 41"

definition utf8_octets :: "nat \<Rightarrow> nat list" where
  "utf8_octets cp =
     (if cp < 0x80 then [cp]
      else if cp < 0x800 then [0xC0 + cp div 64, 0x80 + cp mod 64]
      else if cp < 0x10000 then [0xE0 + cp div 4096, 0x80 + cp div 64 mod 64, 0x80 + cp mod 64]
      else [0xF0 + cp div 262144, 0x80 + cp div 4096 mod 64, 0x80 + cp div 64 mod 64,
            0x80 + cp mod 64])"

definition percent_octet :: "nat \<Rightarrow> jsstring" where
  "percent_octet b = [0x25, hex_upper (b div 16), hex_upper (b mod 16)]"

definition percent_utf8 :: "nat \<Rightarrow> jsstring" where
  "percent_utf8 cp = concat (map percent_octet (utf8_octets cp))"

fun encodeURIComponent :: "jsstring \<Rightarrow> jsexn + jsstring" where
  "encodeURIComponent [] = Inr []"
| "encodeURIComponent (c # cs) =
     (let n = unat c in
      if uri_unescaped n then prepend [c] (encodeURIComponent cs)
      else if n < 0xD800 \<or> 0xDFFF < n then prepend (percent_utf8 n) (encodeURIComponent cs)
      else if 0xDC00 \<le> n then Inl URIError
      else (case cs of
              [] \<Rightarrow> Inl URIError
            | d # ds \<Rightarrow>
                if 0xDC00 \<le> unat d \<and> unat d \<le> 0xDFFF
                then prepend
                       (percent_utf8 ((n - 0xD800) * 0x400 + (unat d - 0xDC00) + 0x10000))
                       (encodeURIComponent ds)
                else Inl URIError))"

fun percent_octets :: "jsstring \<Rightarrow> nat list option" where
  "percent_octets [] = Some []"
| "percent_octets (p # h # l # s) =
     (if p = 0x25
      then (case hex_octet h l of
              None \<Rightarrow> None
            | Some b \<Rightarrow> (case percent_octets s of None \<Rightarrow> None | Some bs \<Rightarrow> Some (b # bs)))
      else None)"
| "percent_octets s = None"

definition continuation :: "nat \<Rightarrow> bool" where
  "continuation b \<longleftrightarrow> 0x80 \<le> b \<and> b < 0xC0"

definition utf8_code_point :: "nat list \<Rightarrow> nat option" where
  "utf8_code_point bs =
     (if \<not> list_all continuation (tl bs) then None
      else if length bs = 2 then
        (let cp = (bs ! 0 - 0xC0) * 64 + (bs ! 1 - 0x80)
         in if 0x80 \<le> cp then Some cp else None)
      else if length bs = 3 then
        (let cp = (bs ! 0 - 0xE0) * 4096 + (bs ! 1 - 0x80) * 64 + (bs ! 2 - 0x80)
         in if 0x800 \<le> cp \<and> \<not> (0xD800 \<le> cp \<and> cp \<le> 0xDFFF) then Some cp else None)
      else if length bs = 4 then
        (let cp = (bs ! 0 - 0xF0) * 262144 + (bs ! 1 - 0x80) * 4096 + (bs ! 2 - 0x80) * 64
                  + (bs ! 3 - 0x80)
         in if 0x10000 \<le> cp \<and> cp \<le> 0x10FFFF then Some cp else None)
      else None)"

definition UTF16EncodeCodePoint :: "nat \<Rightarrow> jsstring" where
  "UTF16EncodeCodePoint cp =
     (if cp < 0x10000 then [of_nat cp]
      else [of_nat (0xD800 + (cp - 0x10000) div 0x400),
            of_nat (0xDC00 + (cp - 0x10000) mod 0x400)])"

text \<open>
  One escape sequence, read after its leading \<open>%\<close>: the code units it denotes and the
  number of code units it takes after that \<open>%\<close>; \<open>None\<close> where Decode throws.
\<close>

definition decode_escape :: "jsstring \<Rightarrow> (jsstring \<times> nat) option" where
  "decode_escape cs =
     (case cs of
        h # l # r \<Rightarrow>
          (case hex_octet h l of
             None \<Rightarrow> None
           | Some b \<Rightarrow>
               if b < 0x80 then Some ([of_nat b], 2)
               else if b < 0xC0 \<or> 0xF8 \<le> b then None
               else (let n = (if b < 0xE0 then 2 else if b < 0xF0 then 3 else 4)
                     in case percent_octets (take (3 * (n - 1)) r) of
                          None \<Rightarrow> None
                        | Some bs \<Rightarrow>
                            if length bs \<noteq> n - 1 then None
                            else (case utf8_code_point (b # bs) of
                                    None \<Rightarrow> None
                                  | Some cp \<Rightarrow> Some (UTF16EncodeCodePoint cp, 2 + 3 * (n - 1)))))
      | _ \<Rightarrow> None)"

fun decodeURIComponent :: "jsstring \<Rightarrow> jsexn + jsstring" where
  "decodeURIComponent [] = Inr []"
| "decodeURIComponent (c # cs) =
     (if c \<noteq> 0x25 then prepend [c] (decodeURIComponent cs)
      else (case decode_escape cs of
              None \<Rightarrow> Inl URIError
            | Some (units, k) \<Rightarrow> prepend units (decodeURIComponent (drop k cs))))"

subsection \<open>btoa and atob\<close>

definition base64_char :: "nat \<Rightarrow> jschar" where
  "base64_char v =
     of_nat (if v < 26 then 65 + v else if v < 52 then 71 + v else if v < 62 then v - 4
             else if v = 62 then 43 else 47)"

definition base64_value :: "jschar \<Rightarrow> nat option" where
  "base64_value c =
     (let n = unat c in
      if 65 \<le> n \<and> n \<le> 90 then Some (n - 65)
      else if 97 \<le> n \<and> n \<le> 122 then Some (n - 71)
      else if 48 \<le> n \<and> n \<le> 57 then Some (n + 4)
      else if n = 43 then Some 62
      else if n = 47 then Some 63
      else None)"

fun sextets_of :: "nat list \<Rightarrow> nat list" where
  "sextets_of (a # b # c # bs) =
     [a div 4, a mod 4 * 16 + b div 16, b mod 16 * 4 + c div 64, c mod 64] @ sextets_of bs"
| "sextets_of [a, b] = [a div 4, a mod 4 * 16 + b div 16, b mod 16 * 4]"
| "sextets_of [a] = [a div 4, a mod 4 * 16]"
| "sextets_of [] = []"

definition btoa :: "jsstring \<Rightarrow> jsexn + jsstring" where
  "btoa s =
     (if list_ex (\<lambda>c. 0xFF < unat c) s then Inl InvalidCharacterError
      else Inr (map base64_char (sextets_of (map unat s))
                @ replicate ((3 - length s mod 3) mod 3) 0x3D))"

fun octets_of :: "nat list \<Rightarrow> nat list" where
  "octets_of (p # q # r # s # vs) =
     [p * 4 + q div 16, q mod 16 * 16 + r div 4, r mod 4 * 64 + s] @ octets_of vs"
| "octets_of [p, q, r] = [p * 4 + q div 16, q mod 16 * 16 + r div 4]"
| "octets_of [p, q] = [p * 4 + q div 16]"
| "octets_of vs = []"

definition ascii_whitespace :: "jschar \<Rightarrow> bool" where
  "ascii_whitespace c \<longleftrightarrow> c = 9 \<or> c = 10 \<or> c = 12 \<or> c = 13 \<or> c = 32"

definition strip_padding :: "jsstring \<Rightarrow> jsstring" where
  "strip_padding s =
     (if length s mod 4 \<noteq> 0 then s
      else (case rev s of
              e1 # e2 # r \<Rightarrow>
                if e1 = 0x3D \<and> e2 = 0x3D then rev r
                else if e1 = 0x3D then rev (e2 # r)
                else s
            | _ \<Rightarrow> s))"

definition atob :: "jsstring \<Rightarrow> jsexn + jsstring" where
  "atob data =
     (let d = strip_padding (filter (\<lambda>c. \<not> ascii_whitespace c) data)
      in if length d mod 4 = 1 then Inl InvalidCharacterError
         else (case those (map base64_value d) of
                 None \<Rightarrow> Inl InvalidCharacterError
               | Some vs \<Rightarrow> Inr (map of_nat (octets_of vs))))"

subsection \<open>Numbers\<close>

definition show_int :: "int \<Rightarrow> jsstring" where
  "show_int i = (if i < 0 then 0x2D # show_nat (nat (- i)) else show_nat (nat i))"

text \<open>The number of binary digits of a natural number, and of its trailing zeros.\<close>

fun bitlen :: "nat \<Rightarrow> nat" where
  "bitlen n = (if n = 0 then 0 else Suc (bitlen (n div 2)))"

declare bitlen.simps [simp del]

fun twos :: "nat \<Rightarrow> nat" where
  "twos n = (if n = 0 \<or> odd n then 0 else Suc (twos (n div 2)))"

declare twos.simps [simp del]

text \<open>
  The doubles among the numbers: an integer below \<open>2^1024\<close> in magnitude whose
  binary digits after the first 53 are zeros, and \<open>m * 2^e\<close> with \<open>m\<close> odd, below
  \<open>2^53\<close> in magnitude, and \<open>e\<close> from \<open>-1074\<close> up to \<open>-1\<close>.
\<close>

definition is_double :: "jsnum \<Rightarrow> bool" where
  "is_double x =
     (case x of
        Intg i \<Rightarrow>
          bitlen (nat \<bar>i\<bar>) \<le> 1024
          \<and> (bitlen (nat \<bar>i\<bar>) \<le> 53 \<or> nat \<bar>i\<bar> mod 2 ^ (bitlen (nat \<bar>i\<bar>) - 53) = 0)
      | Dbl m e \<Rightarrow> odd m \<and> \<bar>m\<bar> < 2 ^ 53 \<and> - 1074 \<le> e \<and> e < 0
      | _ \<Rightarrow> True)"

text \<open>
  Rounding to the nearest double, ties to even, of the positive fraction \<open>p / q\<close>.
  \<open>floor_log2 p q\<close> is the \<open>b\<close> with \<open>2^b \<le> p / q < 2^(b + 1)\<close>; the result is the
  pair \<open>(m, e)\<close> for \<open>m * 2^e\<close>, where \<open>m\<close> has 53 binary digits at most (it is \<open>2^53\<close>
  when the digits are rounded up to the next power of two) and \<open>e\<close> is \<open>-1074\<close> at
  least.
\<close>

definition floor_log2 :: "nat \<Rightarrow> nat \<Rightarrow> int" where
  "floor_log2 p q =
     (let d = int (bitlen p) - int (bitlen q)
      in if (if 0 \<le> d then q * 2 ^ nat d \<le> p else q \<le> p * 2 ^ nat (- d)) then d else d - 1)"

definition round_half_even :: "nat \<Rightarrow> nat \<Rightarrow> nat" where
  "round_half_even n d =
     (let f = n div d; r = n mod d
      in if 2 * r < d then f else if d < 2 * r then f + 1 else if even f then f else f + 1)"

definition round_mag :: "nat \<Rightarrow> nat \<Rightarrow> nat \<times> int" where
  "round_mag p q =
     (let e = max (floor_log2 p q - 52) (- 1074)
      in (if 0 \<le> e then round_half_even p (q * 2 ^ nat e)
          else round_half_even (p * 2 ^ nat (- e)) q,
          e))"

text \<open>
  The number \<open>\<plusminus> m * 2^e\<close>: zero when \<open>m\<close> is zero, an infinity from \<open>2^1024\<close> on, an
  \<open>Intg\<close> when it is an integer, and a \<open>Dbl\<close> of an odd \<open>m\<close> otherwise.
\<close>

definition overflow_bound :: nat where
  "overflow_bound = 2 ^ 1024"

definition make_number :: "bool \<Rightarrow> nat \<Rightarrow> int \<Rightarrow> jsnum" where
  "make_number neg m e =
     (if m = 0 then Intg 0
      else if 0 \<le> e then
        (if overflow_bound \<le> m * 2 ^ nat e then Infinity neg
         else Intg (if neg then - int (m * 2 ^ nat e) else int (m * 2 ^ nat e)))
      else if nat (- e) \<le> twos m then
        Intg (if neg then - int (m div 2 ^ nat (- e)) else int (m div 2 ^ nat (- e)))
      else Dbl (if neg then - int (m div 2 ^ twos m) else int (m div 2 ^ twos m))
               (e + int (twos m)))"

text \<open>
  The number a decimal text denotes: sign, digits \<open>m\<close> and exponent \<open>e\<close>, for the
  double nearest to \<open>\<plusminus> m * 10^e\<close>.
\<close>

definition number_of_decimal :: "bool \<Rightarrow> nat \<Rightarrow> int \<Rightarrow> jsnum" where
  "number_of_decimal neg m e =
     (if m = 0 then Intg 0
      else (case (if 0 \<le> e then round_mag (m * 10 ^ nat e) 1
                  else round_mag m (10 ^ nat (- e))) of
              (r, b) \<Rightarrow> make_number neg r b))"

text \<open>
  Number::toString. For a finite number other than zero it takes the integers
  \<open>n\<close>, \<open>k\<close> and \<open>s\<close> with \<open>s\<close> of \<open>k\<close> digits, \<open>s * 10^(n - k)\<close> rounding to the number, and
  \<open>k\<close> as small as possible; of two such \<open>s\<close> the one nearer to the number, and the
  even one when they are as near.

  \<open>magnitude x\<close> is the fraction \<open>p / q\<close> that is \<open>\<bar>x\<bar>\<close>, and \<open>decimal_position p q\<close> the
  \<open>n\<close> with \<open>10^(n - 1) \<le> p / q < 10^n\<close>. \<open>digits_at x k\<close> is the choice among the two
  decimals of \<open>k\<close> digits next to \<open>\<bar>x\<bar>\<close>, the upper one written \<open>10^(k - 1)\<close> with the
  next \<open>n\<close> when it is \<open>10^k\<close>. \<open>shortest_digits\<close> tries \<open>k = 1, 2, \<dots>\<close>; at the
  number of digits of the decimal that is \<open>\<bar>x\<bar>\<close> exactly, \<open>exact_digits x\<close>, that
  decimal is found, so the search ends before its fuel does.
\<close>

definition is_negative :: "jsnum \<Rightarrow> bool" where
  "is_negative x = (case x of Intg i \<Rightarrow> i < 0 | Dbl m e \<Rightarrow> m < 0 | NaN \<Rightarrow> False | Infinity neg \<Rightarrow> neg)"

definition magnitude :: "jsnum \<Rightarrow> nat \<times> nat" where
  "magnitude x =
     (case x of Intg i \<Rightarrow> (nat \<bar>i\<bar>, 1) | Dbl m e \<Rightarrow> (nat \<bar>m\<bar>, 2 ^ nat (- e)) | _ \<Rightarrow> (0, 1))"

definition decimal_position :: "nat \<Rightarrow> nat \<Rightarrow> int" where
  "decimal_position p q =
     (let d = int (length (show_nat p)) - int (length (show_nat q))
      in if (if 0 \<le> d then q * 10 ^ nat d \<le> p else q \<le> p * 10 ^ nat (- d)) then d + 1 else d)"

definition digits_ok :: "jsnum \<Rightarrow> nat \<Rightarrow> nat \<times> int \<Rightarrow> bool" where
  "digits_ok x k c \<longleftrightarrow>
     0 < fst c \<and> length (show_nat (fst c)) = k
     \<and> number_of_decimal (is_negative x) (fst c) (snd c - int k) = x"

definition digits_at :: "jsnum \<Rightarrow> nat \<Rightarrow> (nat \<times> int) option" where
  "digits_at x k =
     (let n = decimal_position (fst (magnitude x)) (snd (magnitude x));
          a = (if n \<le> int k then fst (magnitude x) * 10 ^ nat (int k - n) else fst (magnitude x));
          b = (if n \<le> int k then snd (magnitude x) else snd (magnitude x) * 10 ^ nat (n - int k));
          lo = (a div b, n);
          hi = (if a div b + 1 = 10 ^ k then (10 ^ (k - 1), n + 1) else (a div b + 1, n))
      in if digits_ok x k lo \<and> digits_ok x k hi then
           Some (if 2 * (a mod b) < b then lo
                 else if b < 2 * (a mod b) then hi
                 else if even (fst lo) then lo else hi)
         else if digits_ok x k lo then Some lo
         else if digits_ok x k hi then Some hi
         else None)"

definition exact_digits :: "jsnum \<Rightarrow> nat \<times> int" where
  "exact_digits x =
     (case x of
        Dbl m e \<Rightarrow>
          (nat \<bar>m\<bar> * 5 ^ nat (- e), int (length (show_nat (nat \<bar>m\<bar> * 5 ^ nat (- e)))) + e)
      | Intg i \<Rightarrow> (nat \<bar>i\<bar>, int (length (show_nat (nat \<bar>i\<bar>))))
      | _ \<Rightarrow> (0, 0))"

fun shortest_digits :: "jsnum \<Rightarrow> nat \<Rightarrow> nat \<Rightarrow> nat \<times> int" where
  "shortest_digits x fuel k =
     (if fuel = 0 then exact_digits x
      else (case digits_at x k of
              Some c \<Rightarrow> c
            | None \<Rightarrow> shortest_digits x (fuel - 1) (Suc k)))"

declare shortest_digits.simps [simp del]

text \<open>The text of the digits \<open>ds\<close> of \<open>s\<close> and the position \<open>n\<close>.\<close>

definition format_digits :: "jsstring \<Rightarrow> int \<Rightarrow> jsstring" where
  "format_digits ds n =
     (if int (length ds) \<le> n \<and> n \<le> 21 then ds @ replicate (nat (n - int (length ds))) 0x30
      else if 0 < n \<and> n \<le> 21 then take (nat n) ds @ [0x2E] @ drop (nat n) ds
      else if - 6 < n \<and> n \<le> 0 then [0x30, 0x2E] @ replicate (nat (- n)) 0x30 @ ds
      else (if length ds = 1 then ds else [hd ds] @ [0x2E] @ tl ds)
           @ [0x65] @ [if n - 1 < 0 then 0x2D else 0x2B] @ show_nat (nat \<bar>n - 1\<bar>))"

definition Number_toString :: "jsnum \<Rightarrow> jsstring" where
  "Number_toString x =
     (case x of
        NaN \<Rightarrow> str ''NaN''
      | Infinity neg \<Rightarrow> (if neg then str ''-Infinity'' else str ''Infinity'')
      | _ \<Rightarrow>
          if fst (magnitude x) = 0 then str ''0''
          else (let c = shortest_digits x (length (show_nat (fst (exact_digits x)))) 1
                in (if is_negative x then [0x2D] else [])
                   @ format_digits (show_nat (fst c)) (snd c)))"

subsection \<open>JSON.stringify\<close>

definition UnicodeEscape :: "jschar \<Rightarrow> jsstring" where
  "UnicodeEscape c =
     (let n = unat c
      in [0x5C, 0x75, hex_lower (n div 4096), hex_lower (n div 256 mod 16),
          hex_lower (n div 16 mod 16), hex_lower (n mod 16)])"

definition json_escape :: "jschar \<Rightarrow> jsstring option" where
  "json_escape c =
     (if c = 0x08 then Some [0x5C, 0x62]
      else if c = 0x09 then Some [0x5C, 0x74]
      else if c = 0x0A then Some [0x5C, 0x6E]
      else if c = 0x0C then Some [0x5C, 0x66]
      else if c = 0x0D then Some [0x5C, 0x72]
      else if c = 0x22 then Some [0x5C, 0x22]
      else if c = 0x5C then Some [0x5C, 0x5C]
      else None)"

definition high_surrogate :: "jschar \<Rightarrow> bool" where
  "high_surrogate c \<longleftrightarrow> 0xD800 \<le> unat c \<and> unat c \<le> 0xDBFF"

definition low_surrogate :: "jschar \<Rightarrow> bool" where
  "low_surrogate c \<longleftrightarrow> 0xDC00 \<le> unat c \<and> unat c \<le> 0xDFFF"

text \<open>
  The text QuoteJSONString puts for the code unit \<open>c\<close>, given whether \<open>c\<close> stands in
  a surrogate pair.
\<close>

definition quote_unit :: "bool \<Rightarrow> jschar \<Rightarrow> jsstring" where
  "quote_unit paired c =
     (case json_escape c of
        Some e \<Rightarrow> e
      | None \<Rightarrow>
          if unat c < 0x20 \<or> ((high_surrogate c \<or> low_surrogate c) \<and> \<not> paired)
          then UnicodeEscape c else [c])"

fun quote_units :: "jsstring \<Rightarrow> jsstring" where
  "quote_units [] = []"
| "quote_units [c] = quote_unit False c"
| "quote_units (c # d # cs) =
     (if high_surrogate c \<and> low_surrogate d then c # d # quote_units cs
      else quote_unit False c @ quote_units (d # cs))"

definition QuoteJSONString :: "jsstring \<Rightarrow> jsstring" where
  "QuoteJSONString s = [0x22] @ quote_units s @ [0x22]"

fun join :: "jsstring \<Rightarrow> jsstring list \<Rightarrow> jsstring" where
  "join sep [] = []"
| "join sep [x] = x"
| "join sep (x # y # ys) = x @ sep @ join sep (y # ys)"

fun SerializeJSONProperty :: "jsval \<Rightarrow> jsstring option"
  and SerializeJSONArray :: "jsval list \<Rightarrow> jsstring list"
  and SerializeJSONObject :: "(jsstring \<times> jsval) list \<Rightarrow> jsstring list" where
  "SerializeJSONProperty JUndefined = None"
| "SerializeJSONProperty JNull = Some (str ''null'')"
| "SerializeJSONProperty (JBool b) = Some (if b then str ''true'' else str ''false'')"
| "SerializeJSONProperty (JNum n) =
     Some (case n of NaN \<Rightarrow> str ''null'' | Infinity neg \<Rightarrow> str ''null'' | _ \<Rightarrow> Number_toString n)"
| "SerializeJSONProperty (JStr s) = Some (QuoteJSONString s)"
| "SerializeJSONProperty (JArr xs) = Some ([0x5B] @ join [0x2C] (SerializeJSONArray xs) @ [0x5D])"
| "SerializeJSONProperty (JObj kvs) = Some ([0x7B] @ join [0x2C] (SerializeJSONObject kvs) @ [0x7D])"
| "SerializeJSONArray [] = []"
| "SerializeJSONArray (x # xs) =
     (case SerializeJSONProperty x of None \<Rightarrow> str ''null'' | Some t \<Rightarrow> t) # SerializeJSONArray xs"
| "SerializeJSONObject [] = []"
| "SerializeJSONObject ((k, v) # kvs) =
     (case SerializeJSONProperty v of
        None \<Rightarrow> SerializeJSONObject kvs
      | Some t \<Rightarrow> (QuoteJSONString k @ [0x3A] @ t) # SerializeJSONObject kvs)"

definition JSON_stringify :: "jsval \<Rightarrow> jsstring option" where
  "JSON_stringify v = SerializeJSONProperty v"

subsection \<open>JSON.parse\<close>

definition json_ws :: "jschar \<Rightarrow> bool" where
  "json_ws c \<longleftrightarrow> c = 0x09 \<or> c = 0x0A \<or> c = 0x0D \<or> c = 0x20"

definition skip_ws :: "jsstring \<Rightarrow> jsstring" where
  "skip_ws s = dropWhile json_ws s"

definition single_escape :: "jschar \<Rightarrow> jschar option" where
  "single_escape e =
     (if e = 0x22 then Some 0x22
      else if e = 0x5C then Some 0x5C
      else if e = 0x2F then Some 0x2F
      else if e = 0x62 then Some 0x08
      else if e = 0x66 then Some 0x0C
      else if e = 0x6E then Some 0x0A
      else if e = 0x72 then Some 0x0D
      else if e = 0x74 then Some 0x09
      else None)"

text \<open>
  One escape, read after its backslash: the code unit it denotes and the number of
  code units it takes after the backslash.
\<close>

definition unescape :: "jsstring \<Rightarrow> (jschar \<times> nat) option" where
  "unescape cs =
     (case cs of
        [] \<Rightarrow> None
      | e # es \<Rightarrow>
          if e = 0x75 then
            (case es of
               a # b # c # d # r \<Rightarrow>
                 (case hex_octet a b of
                    None \<Rightarrow> None
                  | Some hi \<Rightarrow>
                      (case hex_octet c d of
                         None \<Rightarrow> None
                       | Some lo \<Rightarrow> Some (of_nat (256 * hi + lo), 5)))
             | _ \<Rightarrow> None)
          else (case single_escape e of None \<Rightarrow> None | Some u \<Rightarrow> Some (u, 1)))"

text \<open>The characters of a string literal after its opening quote, and what follows it.\<close>

fun parse_string_units :: "jsstring \<Rightarrow> (jsstring \<times> jsstring) option" where
  "parse_string_units [] = None"
| "parse_string_units (c # cs) =
     (if c = 0x22 then Some ([], cs)
      else if unat c < 0x20 then None
      else if c = 0x5C then
        (case unescape cs of
           None \<Rightarrow> None
         | Some (u, k) \<Rightarrow>
             (case parse_string_units (drop k cs) of
                None \<Rightarrow> None
              | Some (t, r) \<Rightarrow> Some (u # t, r)))
      else (case parse_string_units cs of None \<Rightarrow> None | Some (t, r) \<Rightarrow> Some (c # t, r)))"

definition is_digit :: "jschar \<Rightarrow> bool" where
  "is_digit c \<longleftrightarrow> 48 \<le> unat c \<and> unat c \<le> 57"

definition digits_value :: "jsstring \<Rightarrow> nat" where
  "digits_value ds = foldl (\<lambda>a c. 10 * a + (unat c - 48)) 0 ds"

text \<open>
  The parts of a JSON number, each with what follows it: the integer part (a
  single \<open>0\<close>, or digits that do not start with \<open>0\<close>), the optional fraction (its
  digits) and the optional exponent (its value). \<open>None\<close> where the grammar fails.
\<close>

definition parse_int_part :: "jsstring \<Rightarrow> (jsstring \<times> jsstring) option" where
  "parse_int_part s =
     (let ip = (if s \<noteq> [] \<and> hd s = 0x30 then [0x30] else takeWhile is_digit s)
      in if ip = [] then None else Some (ip, drop (length ip) s))"

definition parse_fraction :: "jsstring \<Rightarrow> (jsstring \<times> jsstring) option" where
  "parse_fraction s =
     (if s \<noteq> [] \<and> hd s = 0x2E then
        (let fp = takeWhile is_digit (tl s)
         in if fp = [] then None else Some (fp, drop (length fp) (tl s)))
      else Some ([], s))"

definition parse_exponent :: "jsstring \<Rightarrow> (int \<times> jsstring) option" where
  "parse_exponent s =
     (if s \<noteq> [] \<and> (hd s = 0x65 \<or> hd s = 0x45) then
        (let eneg = (tl s \<noteq> [] \<and> hd (tl s) = 0x2D);
             s1 = (if tl s \<noteq> [] \<and> (hd (tl s) = 0x2D \<or> hd (tl s) = 0x2B) then tl (tl s)
                   else tl s);
             ep = takeWhile is_digit s1
         in if ep = [] then None
            else Some (if eneg then - int (digits_value ep) else int (digits_value ep),
                       drop (length ep) s1))
      else Some (0, s))"

text \<open>A JSON number at the head of the text, and what follows it.\<close>

definition parse_number :: "jsstring \<Rightarrow> (jsnum \<times> jsstring) option" where
  "parse_number s =
     (let neg = (s \<noteq> [] \<and> hd s = 0x2D)
      in case parse_int_part (if neg then tl s else s) of
           None \<Rightarrow> None
         | Some (ip, s2) \<Rightarrow>
             (case parse_fraction s2 of
                None \<Rightarrow> None
              | Some (fp, s3) \<Rightarrow>
                  (case parse_exponent s3 of
                     None \<Rightarrow> None
                   | Some (e, s4) \<Rightarrow>
                       Some (number_of_decimal neg (digits_value (ip @ fp))
                               (e - int (length fp)),
                             s4))))"

definition parse_literal :: "jsstring \<Rightarrow> (jsval \<times> jsstring) option" where
  "parse_literal s =
     (if take 4 s = str ''true'' then Some (JBool True, drop 4 s)
      else if take 5 s = str ''false'' then Some (JBool False, drop 5 s)
      else if take 4 s = str ''null'' then Some (JNull, drop 4 s)
      else (case parse_number s of None \<Rightarrow> None | Some (n, r) \<Rightarrow> Some (JNum n, r)))"

text \<open>
  The three steps of the recursive descent, each over the parsers it calls. A value
  is read after leading white space; the elements of an array after its \<open>[\<close>, up
  to and with its \<open>]\<close>; the members of an object after its \<open>{\<close>, up to and with
  its \<open>}\<close>.
\<close>

definition value_step ::
  "(jsstring \<Rightarrow> (jsval list \<times> jsstring) option) \<Rightarrow>
   (jsstring \<Rightarrow> ((jsstring \<times> jsval) list \<times> jsstring) option) \<Rightarrow>
   jsstring \<Rightarrow> (jsval \<times> jsstring) option" where
  "value_step elements members s =
     (case skip_ws s of
        [] \<Rightarrow> None
      | c # cs \<Rightarrow>
          if c = 0x5B then
            (case skip_ws cs of
               [] \<Rightarrow> None
             | d # ds \<Rightarrow>
                 if d = 0x5D then Some (JArr [], ds)
                 else (case elements cs of None \<Rightarrow> None | Some (xs, r) \<Rightarrow> Some (JArr xs, r)))
          else if c = 0x7B then
            (case skip_ws cs of
               [] \<Rightarrow> None
             | d # ds \<Rightarrow>
                 if d = 0x7D then Some (JObj [], ds)
                 else (case members cs of
                         None \<Rightarrow> None
                       | Some (kvs, r) \<Rightarrow>
                           Some (JObj (fold (\<lambda>(k, v) t. CreateDataProperty t k v) kvs []), r)))
          else if c = 0x22 then
            (case parse_string_units cs of None \<Rightarrow> None | Some (t, r) \<Rightarrow> Some (JStr t, r))
          else parse_literal (c # cs))"

definition elements_step ::
  "(jsstring \<Rightarrow> (jsval \<times> jsstring) option) \<Rightarrow>
   (jsstring \<Rightarrow> (jsval list \<times> jsstring) option) \<Rightarrow>
   jsstring \<Rightarrow> (jsval list \<times> jsstring) option" where
  "elements_step val elements s =
     (case val s of
        None \<Rightarrow> None
      | Some (v, r) \<Rightarrow>
          (case skip_ws r of
             [] \<Rightarrow> None
           | c # cs \<Rightarrow>
               if c = 0x2C then
                 (case elements cs of None \<Rightarrow> None | Some (vs, r') \<Rightarrow> Some (v # vs, r'))
               else if c = 0x5D then Some ([v], cs)
               else None))"

definition members_step ::
  "(jsstring \<Rightarrow> (jsval \<times> jsstring) option) \<Rightarrow>
   (jsstring \<Rightarrow> ((jsstring \<times> jsval) list \<times> jsstring) option) \<Rightarrow>
   jsstring \<Rightarrow> ((jsstring \<times> jsval) list \<times> jsstring) option" where
  "members_step val members s =
     (case skip_ws s of
        [] \<Rightarrow> None
      | q # cs \<Rightarrow>
          if q \<noteq> 0x22 then None
          else (case parse_string_units cs of
                  None \<Rightarrow> None
                | Some (k, r) \<Rightarrow>
                    (case skip_ws r of
                       [] \<Rightarrow> None
                     | c # r1 \<Rightarrow>
                         if c \<noteq> 0x3A then None
                         else (case val r1 of
                                 None \<Rightarrow> None
                               | Some (v, r2) \<Rightarrow>
                                   (case skip_ws r2 of
                                      [] \<Rightarrow> None
                                    | d # r3 \<Rightarrow>
                                        if d = 0x2C then
                                          (case members r3 of
                                             None \<Rightarrow> None
                                           | Some (kvs, r') \<Rightarrow> Some ((k, v) # kvs, r'))
                                        else if d = 0x7D then Some ([(k, v)], r3)
                                        else None)))))"

text \<open>
  The descent, by fuel: every call spends one unit, and a text never needs more
  units than it has code units.
\<close>

fun parse_value :: "nat \<Rightarrow> jsstring \<Rightarrow> (jsval \<times> jsstring) option"
  and parse_elements :: "nat \<Rightarrow> jsstring \<Rightarrow> (jsval list \<times> jsstring) option"
  and parse_members :: "nat \<Rightarrow> jsstring \<Rightarrow> ((jsstring \<times> jsval) list \<times> jsstring) option" where
  "parse_value 0 s = None"
| "parse_value (Suc n) s = value_step (parse_elements n) (parse_members n) s"
| "parse_elements 0 s = None"
| "parse_elements (Suc n) s = elements_step (parse_value n) (parse_elements n) s"
| "parse_members 0 s = None"
| "parse_members (Suc n) s = members_step (parse_value n) (parse_members n) s"

definition JSON_parse :: "jsstring \<Rightarrow> jsexn + jsval" where
  "JSON_parse text =
     (case parse_value (Suc (length text)) text of
        None \<Rightarrow> Inl SyntaxError
      | Some (v, r) \<Rightarrow> if skip_ws r = [] then Inr v else Inl SyntaxError)"

subsection \<open>qs.stringify\<close>

text \<open>
  \<open>qs.stringify(obj, { encode: false })\<close> of the \<open>qs\<close> library, every other option
  at its default: nested keys in brackets, array elements by index, \<open>null\<close> and the
  empty string as \<open>key=\<close>, and nothing for \<open>undefined\<close>, an empty array or an empty
  object.
\<close>

fun qs_value :: "jsstring \<Rightarrow> jsval \<Rightarrow> jsstring list"
  and qs_elements :: "jsstring \<Rightarrow> nat \<Rightarrow> jsval list \<Rightarrow> jsstring list"
  and qs_properties :: "jsstring \<Rightarrow> (jsstring \<times> jsval) list \<Rightarrow> jsstring list" where
  "qs_value prefix JUndefined = []"
| "qs_value prefix JNull = [prefix @ [0x3D]]"
| "qs_value prefix (JBool b) = [prefix @ [0x3D] @ (if b then str ''true'' else str ''false'')]"
| "qs_value prefix (JNum n) = [prefix @ [0x3D] @ Number_toString n]"
| "qs_value prefix (JStr s) = [prefix @ [0x3D] @ s]"
| "qs_value prefix (JArr xs) = qs_elements prefix 0 xs"
| "qs_value prefix (JObj kvs) = qs_properties prefix kvs"
| "qs_elements prefix i [] = []"
| "qs_elements prefix i (x # xs) =
     qs_value (prefix @ [0x5B] @ show_nat i @ [0x5D]) x @ qs_elements prefix (Suc i) xs"
| "qs_properties prefix [] = []"
| "qs_properties prefix ((k, v) # kvs) =
     qs_value (prefix @ [0x5B] @ k @ [0x5D]) v @ qs_properties prefix kvs"

definition qs_stringify :: "jsval \<Rightarrow> jsstring" where
  "qs_stringify obj =
     (case obj of
        JObj kvs \<Rightarrow> join [0x26] (concat (map (\<lambda>(k, v). qs_value k v) kvs))
      | JArr xs \<Rightarrow> join [0x26] (concat (map (\<lambda>(k, v). qs_value k v) (own_props obj)))
      | _ \<Rightarrow> [])"

section \<open>The search state engine (useSearch)\<close>

text \<open>
  Modelled from the spec: the class \<open>PageQuery\<close> of \<open>../service/public\<close>, which is
  not among the sources. The spec's data model gives a pagination the two integer
  fields \<open>page\<close> and \<open>pageSize\<close>.
\<close>

record PageQuery =
  page :: int
  pageSize :: int

definition PageQuery_props :: "PageQuery \<Rightarrow> (jsstring \<times> jsval) list" where
  "PageQuery_props pq =
     [(str ''page'', JNum (Intg (page pq))), (str ''pageSize'', JNum (Intg (pageSize pq)))]"

text \<open>
  The cells the hook keeps across renders: the \<open>loading\<close> and \<open>pageData\<close> states and
  the refs \<open>searchDataRef\<close>, \<open>paginationRef\<close>, \<open>staticParams\<close> and \<open>storageRef\<close>.
\<close>

record engine =
  loading :: bool
  pageData :: jsval
  searchDataRef :: jsval
  paginationRef :: PageQuery
  staticParams :: jsval
  storageRef :: jsstring

text \<open>
  The synchronous part of \<open>searchRef.current(searchData, pagination)\<close>, up to the call
  of the query function: the new cells and the argument handed to the query
  function. An omitted \<open>searchData\<close> is \<open>JUndefined\<close>, an omitted (or null)
  \<open>pagination\<close> is \<open>None\<close>.
\<close>

definition searchRef_call :: "jsval \<Rightarrow> PageQuery option \<Rightarrow> engine \<Rightarrow> engine \<times> jsval" where
  "searchRef_call searchData pagination e0 =
     (let e1 = e0\<lparr>loading := True\<rparr>;
          e2 = (case pagination of
                  None \<Rightarrow> e1
                | Some pg \<Rightarrow>
                    e1\<lparr>paginationRef := (paginationRef e1)
                         \<lparr>page := (if pageSize (paginationRef e1) = pageSize pg
                                   then page pg else 1),
                          pageSize := pageSize pg\<rparr>\<rparr>);
          e3 = (if truthy searchData
                then e2\<lparr>searchDataRef := searchData,
                        paginationRef := (paginationRef e2)\<lparr>page := 1\<rparr>\<rparr>
                else e2)
      in (e3,
          JObj (object_spread
                 (object_spread
                   (object_spread [] (searchDataRef e3))
                   (JObj (PageQuery_props (paginationRef e3))))
                 (staticParams e3))))"

subsection \<open>The codec\<close>

datatype SupportedFormat = Query | Base64

fun isUsefulValue :: "jsval \<Rightarrow> bool" where
  "isUsefulValue (JArr xs) = (xs \<noteq> [])"
| "isUsefulValue JUndefined = False"
| "isUsefulValue JNull = False"
| "isUsefulValue (JStr s) = (s \<noteq> [])"
| "isUsefulValue v = True"

text \<open>
  The assignment \<open>o[k] = v\<close> on a plain object: it makes or overwrites the own
  property \<open>k\<close>, except for the key \<open>__proto__\<close>, which is the accessor of the
  prototype and makes no own property.
\<close>

definition assign_property ::
  "(jsstring \<times> jsval) list \<Rightarrow> jsstring \<Rightarrow> jsval \<Rightarrow> (jsstring \<times> jsval) list" where
  "assign_property kvs k v = (if k = str ''__proto__'' then kvs else CreateDataProperty kvs k v)"

text \<open>
  The object \<open>_query\<close> of \<open>encodeQueryData\<close>: the useful entries of \<open>queryData\<close>, each
  key assigned in turn on an empty object.
\<close>

definition useful_keys :: "jsval \<Rightarrow> jsstring list" where
  "useful_keys queryData =
     filter (\<lambda>k. isUsefulValue (Get (own_props queryData) k)) (map fst (own_props queryData))"

definition useful_query :: "jsval \<Rightarrow> (jsstring \<times> jsval) list" where
  "useful_query queryData =
     fold (\<lambda>k q. assign_property q k (Get (own_props queryData) k)) (useful_keys queryData) []"

definition encodeQueryData :: "jsval \<Rightarrow> SupportedFormat \<Rightarrow> jsexn + jsstring" where
  "encodeQueryData queryData format =
     (if truthy queryData \<and> useful_keys queryData \<noteq> [] then
        (case format of
           Base64 \<Rightarrow>
             (case JSON_stringify (JObj (useful_query queryData)) of
                None \<Rightarrow> Inl TypeError
              | Some json \<Rightarrow>
                  (case encodeURIComponent json of Inl e \<Rightarrow> Inl e | Inr uri \<Rightarrow> btoa uri))
         | Query \<Rightarrow> Inr (qs_stringify queryData))
      else Inr [])"

text \<open>
  What the engine takes from outside: \<open>qs.parse\<close> of the \<open>qs\<close> library and the
  pagination \<open>new PageQuery()\<close> starts with.
\<close>

record externals =
  qs_parse :: "jsstring \<Rightarrow> jsval"
  new_PageQuery :: PageQuery

text \<open>The one message \<open>decodeQueryData\<close> writes with \<open>console.error\<close>.\<close>

datatype console_msg = IncompleteQuery

text \<open>
  \<open>decodeQueryData(data, format)\<close>: \<open>Inl\<close> an exception thrown to the caller, or
  \<open>Inr\<close> the payload returned with the messages logged. \<open>data\<close> is \<open>None\<close> for \<open>null\<close>.
\<close>

definition decode_base64 :: "jsstring \<Rightarrow> jsexn + jsval" where
  "decode_base64 data =
     (case decodeURIComponent data of
        Inl e \<Rightarrow> Inl e
      | Inr d1 \<Rightarrow>
          (case atob d1 of
             Inl e \<Rightarrow> Inl e
           | Inr d2 \<Rightarrow>
               (case decodeURIComponent d2 of Inl e \<Rightarrow> Inl e | Inr d3 \<Rightarrow> JSON_parse d3)))"

definition decodeQueryData ::
  "externals \<Rightarrow> jsstring option \<Rightarrow> SupportedFormat \<Rightarrow> jsexn + jsval \<times> console_msg list" where
  "decodeQueryData ext data format =
     (case data of
        None \<Rightarrow> Inr (JObj [], [])
      | Some d \<Rightarrow>
          if d = [] then Inr (JObj [], [])
          else (case format of
                  Base64 \<Rightarrow>
                    (case decode_base64 d of
                       Inr v \<Rightarrow> Inr (v, [])
                     | Inl e \<Rightarrow> Inr (JObj [], [IncompleteQuery]))
                | Query \<Rightarrow>
                    (case decodeURIComponent d of
                       Inl e \<Rightarrow> Inl e
                     | Inr q \<Rightarrow> Inr (qs_parse ext q, []))))"

subsection \<open>The storage adapters\<close>

text \<open>
  The browser as the adapters see it: the path of the location, the query
  parameters of its link as \<open>URLSearchParams\<close> lists them (names and values
  decoded), and the session storage.
\<close>

record browser =
  pathname :: jsstring
  searchParams :: "(jsstring \<times> jsstring) list"
  sessionStorage :: "jsstring \<rightharpoonup> jsstring"

definition SEARCH_QUERY_KEY :: jsstring where
  "SEARCH_QUERY_KEY = str ''_q''"

definition SEARCH_CACHE_KEY :: jsstring where
  "SEARCH_CACHE_KEY = str ''list_search_query''"

definition searchParams_get :: "(jsstring \<times> jsstring) list \<Rightarrow> jsstring \<Rightarrow> jsstring option" where
  "searchParams_get ps name = map_of ps name"

definition searchParams_delete ::
  "(jsstring \<times> jsstring) list \<Rightarrow> jsstring \<Rightarrow> (jsstring \<times> jsstring) list" where
  "searchParams_delete ps name = filter (\<lambda>p. fst p \<noteq> name) ps"

fun searchParams_set ::
  "(jsstring \<times> jsstring) list \<Rightarrow> jsstring \<Rightarrow> jsstring \<Rightarrow> (jsstring \<times> jsstring) list" where
  "searchParams_set [] name v = [(name, v)]"
| "searchParams_set (p # ps) name v =
     (if fst p = name then (name, v) # searchParams_delete ps name
      else p # searchParams_set ps name v)"

text \<open>
  \<open>generateNewUrl(data)\<close>, as the query parameters of the link it builds; the path
  stays. \<open>encodeURIComponent\<close> may throw.
\<close>

definition generateNewUrl :: "jsstring \<Rightarrow> browser \<Rightarrow> jsexn + (jsstring \<times> jsstring) list" where
  "generateNewUrl data br =
     (let ps = (case searchParams_get (searchParams br) SEARCH_QUERY_KEY of
                  None \<Rightarrow> searchParams br
                | Some v \<Rightarrow>
                    if v \<noteq> [] then searchParams_delete (searchParams br) SEARCH_QUERY_KEY
                    else searchParams br)
      in if data \<noteq> [] then
           (case encodeURIComponent data of
              Inl e \<Rightarrow> Inl e
            | Inr t \<Rightarrow> Inr (searchParams_set ps SEARCH_QUERY_KEY t))
         else Inr ps)"

text \<open>\<open>setToUrl\<close>: \<open>Router.replace\<close> puts the new link in place of the current one.\<close>

definition setToUrl :: "jsstring \<Rightarrow> browser \<Rightarrow> jsexn + browser" where
  "setToUrl data br =
     (case generateNewUrl data br of Inl e \<Rightarrow> Inl e | Inr ps \<Rightarrow> Inr (br\<lparr>searchParams := ps\<rparr>))"

definition getFromUrl ::
  "externals \<Rightarrow> SupportedFormat \<Rightarrow> browser \<Rightarrow> jsexn + jsval \<times> console_msg list" where
  "getFromUrl ext format br =
     decodeQueryData ext (searchParams_get (searchParams br) SEARCH_QUERY_KEY) format"

text \<open>The option \<open>cache\<close>: a boolean, or a string that names the cache.\<close>

datatype cache_mode = CacheBool bool | CacheKey jsstring

fun cache_on :: "cache_mode \<Rightarrow> bool" where
  "cache_on (CacheBool b) = b"
| "cache_on (CacheKey k) = (k \<noteq> [])"

fun cache_prefix :: "cache_mode \<Rightarrow> jsstring" where
  "cache_prefix (CacheBool b) = (if b then str ''true'' else str ''false'')"
| "cache_prefix (CacheKey k) = k"

definition cache_key :: "cache_mode \<Rightarrow> browser \<Rightarrow> jsstring" where
  "cache_key prefix br = pathname br @ [0x5F] @ cache_prefix prefix @ [0x5F] @ SEARCH_CACHE_KEY"

definition setCache :: "cache_mode \<Rightarrow> jsstring \<Rightarrow> browser \<Rightarrow> browser" where
  "setCache prefix data br =
     br\<lparr>sessionStorage := (sessionStorage br)(cache_key prefix br \<mapsto> data)\<rparr>"

definition getFromCache ::
  "externals \<Rightarrow> cache_mode \<Rightarrow> SupportedFormat \<Rightarrow> browser \<Rightarrow> jsexn + jsval \<times> console_msg list" where
  "getFromCache ext prefix format br =
     decodeQueryData ext (sessionStorage br (cache_key prefix br)) format"

subsection \<open>Initial state and persistence\<close>

datatype sync_mode = SyncOff | SyncUrl | SyncCopy

record SearchOptions =
  initialSearchData :: jsval
  initialPagination :: "PageQuery option"
  staticSearchData :: jsval
  initRequest :: bool
  sync :: sync_mode
  cache :: cache_mode
  storageFormat :: SupportedFormat

text \<open>
  \<open>_initialSearchData\<close>: the object literal of three spreads, evaluated left to
  right; a decoder that throws ends it.
\<close>

definition initial_search_data ::
  "externals \<Rightarrow> SearchOptions \<Rightarrow> browser \<Rightarrow> jsexn + jsval \<times> console_msg list" where
  "initial_search_data ext opts br =
     (let o1 = object_spread [] (initialSearchData opts)
      in case (if cache_on (cache opts)
               then getFromCache ext (cache opts) (storageFormat opts) br
               else Inr (JObj [], [])) of
           Inl e \<Rightarrow> Inl e
         | Inr (c, m1) \<Rightarrow>
             (case (if sync opts \<noteq> SyncOff
                    then getFromUrl ext (storageFormat opts) br
                    else Inr (JObj [], [])) of
                Inl e \<Rightarrow> Inl e
              | Inr (u, m2) \<Rightarrow> Inr (JObj (object_spread (object_spread o1 c) u), m1 @ m2)))"

text \<open>The cells of the hook after its first render.\<close>

definition useSearch_init ::
  "externals \<Rightarrow> SearchOptions \<Rightarrow> jsval \<Rightarrow> browser \<Rightarrow> jsexn + engine \<times> console_msg list" where
  "useSearch_init ext opts initialPageData br =
     (case initial_search_data ext opts br of
        Inl e \<Rightarrow> Inl e
      | Inr (d, msgs) \<Rightarrow>
          Inr (\<lparr>loading = initRequest opts,
                pageData = initialPageData,
                searchDataRef = d,
                paginationRef = (case initialPagination opts of
                                   None \<Rightarrow> new_PageQuery ext
                                 | Some p \<Rightarrow> p),
                staticParams = (if truthy (staticSearchData opts) then staticSearchData opts
                                else JObj []),
                storageRef = []\<rparr>,
               msgs))"

text \<open>
  \<open>storageFunc(formData)\<close>: the cells and the browser it leaves, and the exception
  it throws, if any. What it wrote before throwing stays written.
\<close>

definition storageFunc ::
  "SearchOptions \<Rightarrow> jsval \<Rightarrow> engine \<times> browser \<Rightarrow> (engine \<times> browser) \<times> jsexn option" where
  "storageFunc opts formData s =
     (case (if sync opts \<noteq> SyncOff \<or> cache_on (cache opts)
            then encodeQueryData formData (storageFormat opts)
            else Inr (storageRef (fst s))) of
        Inl e \<Rightarrow> (s, Some e)
      | Inr t \<Rightarrow>
          (let e1 = (fst s)\<lparr>storageRef := t\<rparr>
           in case (if sync opts = SyncUrl then setToUrl t (snd s) else Inr (snd s)) of
                Inl e \<Rightarrow> ((e1, snd s), Some e)
              | Inr b1 \<Rightarrow>
                  ((e1, if cache_on (cache opts) then setCache (cache opts) t b1 else b1),
                   None)))"

text \<open>
  How a promise settles: fulfilled with a value, or rejected with a reason, which
  is a value the query function rejected with or an exception thrown on the way.
\<close>

datatype reason = Value jsval | Exception jsexn

datatype settled = Fulfilled jsval | Rejected reason

text \<open>
  The rest of \<open>searchRef.current\<close>, run when the promise of the query function
  settles: \<open>then\<close> stores the page data of a fulfilled promise, \<open>finally\<close> persists
  the current query payload and clears \<open>loading\<close>, and the promise handed back to
  the caller settles as the query's did unless \<open>finally\<close> threw.
\<close>

definition searchRef_settle ::
  "SearchOptions \<Rightarrow> settled \<Rightarrow> engine \<times> browser \<Rightarrow> (engine \<times> browser) \<times> settled" where
  "searchRef_settle opts outcome s =
     (let e1 = (case outcome of
                  Fulfilled result \<Rightarrow> (fst s)\<lparr>pageData := result\<rparr>
                | Rejected r \<Rightarrow> fst s)
      in case storageFunc opts (searchDataRef e1) (e1, snd s) of
           ((e2, b2), Some e) \<Rightarrow> ((e2, b2), Rejected (Exception e))
         | ((e2, b2), None) \<Rightarrow>
             ((e2\<lparr>loading := False\<rparr>, b2),
              (case outcome of
                 Fulfilled result \<Rightarrow> Fulfilled JUndefined
               | Rejected r \<Rightarrow> Rejected r)))"

section \<open>The column rendering pipeline (useTable)\<close>

subsection \<open>Conversions and number functions of the platform\<close>

text \<open>
  ToString, for the values of this development: an array prints its elements
  joined by commas, \<open>null\<close> and \<open>undefined\<close> elements as nothing, and an object
  prints as \<open>[object Object]\<close>.
\<close>

fun ToString :: "jsval \<Rightarrow> jsstring"
  and ToString_elements :: "jsval list \<Rightarrow> jsstring list" where
  "ToString JUndefined = str ''undefined''"
| "ToString JNull = str ''null''"
| "ToString (JBool b) = (if b then str ''true'' else str ''false'')"
| "ToString (JNum n) = Number_toString n"
| "ToString (JStr s) = s"
| "ToString (JArr xs) = join [0x2C] (ToString_elements xs)"
| "ToString (JObj kvs) = str ''[object Object]''"
| "ToString_elements [] = []"
| "ToString_elements (x # xs) =
     (if x = JUndefined \<or> x = JNull then [] else ToString x) # ToString_elements xs"

text \<open>
  What the pipeline takes from outside: \<open>renderPrice\<close> of \<open>../toolkit\<close>,
  \<open>moment(value).format(pattern)\<close>, \<open>origin.valueOf(value)\<close> of an enum type, and
  the number a string converts to.
\<close>

record format_env =
  renderPrice :: "jsval \<Rightarrow> jsexn + jsval"
  moment_format :: "jsval \<Rightarrow> jsval \<Rightarrow> jsval"
  enum_valueOf :: "jsval \<Rightarrow> jsval \<Rightarrow> jsexn + jsval"
  StringToNumber :: "jsstring \<Rightarrow> jsnum"

text \<open>
  Modelled from the spec: \<open>isEmpty\<close> of \<open>../toolkit\<close>, which is not among the
  sources. The spec has the renders replace the values that are not useful
  (\<open>undefined\<close>, \<open>null\<close>, the empty string, the empty sequence) by the default.
\<close>

definition isEmpty :: "jsval \<Rightarrow> bool" where
  "isEmpty v = (\<not> isUsefulValue v)"

definition ToNumber :: "format_env \<Rightarrow> jsval \<Rightarrow> jsnum" where
  "ToNumber env v =
     (case v of
        JUndefined \<Rightarrow> NaN
      | JNull \<Rightarrow> Intg 0
      | JBool b \<Rightarrow> Intg (if b then 1 else 0)
      | JNum n \<Rightarrow> n
      | _ \<Rightarrow> StringToNumber env (ToString v))"

text \<open>ToIntegerOrInfinity; \<open>None\<close> for either infinity.\<close>

definition ToIntegerOrInfinity :: "jsnum \<Rightarrow> int option" where
  "ToIntegerOrInfinity n =
     (case n of
        Intg i \<Rightarrow> Some i
      | Dbl m e \<Rightarrow> Some (if 0 \<le> e then m * 2 ^ nat e else sgn m * (\<bar>m\<bar> div 2 ^ nat (- e)))
      | NaN \<Rightarrow> Some 0
      | Infinity neg \<Rightarrow> None)"

definition ToInt32 :: "jsnum \<Rightarrow> int" where
  "ToInt32 n =
     (case ToIntegerOrInfinity n of
        None \<Rightarrow> 0
      | Some i \<Rightarrow> (let k = i mod 2 ^ 32 in if 2 ^ 31 \<le> k then k - 2 ^ 32 else k))"

definition StrWhiteSpaceChar :: "jschar \<Rightarrow> bool" where
  "StrWhiteSpaceChar c \<longleftrightarrow>
     (let n = unat c in
      (9 \<le> n \<and> n \<le> 13) \<or> n = 0x20 \<or> n = 0xA0 \<or> n = 0x1680 \<or> (0x2000 \<le> n \<and> n \<le> 0x200A)
      \<or> n = 0x2028 \<or> n = 0x2029 \<or> n = 0x202F \<or> n = 0x205F \<or> n = 0x3000 \<or> n = 0xFEFF)"

text \<open>
  \<open>parseFloat\<close> of a string: the number of the longest prefix, after leading white
  space, that is a StrDecimalLiteral, and \<open>NaN\<close> when there is none. It does not
  throw.
\<close>

definition parseFloat :: "jsstring \<Rightarrow> jsnum" where
  "parseFloat inputString =
     (let s = dropWhile StrWhiteSpaceChar inputString;
          neg = (s \<noteq> [] \<and> hd s = 0x2D);
          s1 = (if s \<noteq> [] \<and> (hd s = 0x2D \<or> hd s = 0x2B) then tl s else s);
          ip = takeWhile is_digit s1;
          s2 = drop (length ip) s1;
          fp = (if s2 \<noteq> [] \<and> hd s2 = 0x2E then takeWhile is_digit (tl s2) else []);
          s3 = (if s2 \<noteq> [] \<and> hd s2 = 0x2E then drop (length fp) (tl s2) else s2);
          s4 = (if s3 \<noteq> [] \<and> (hd s3 = 0x65 \<or> hd s3 = 0x45) then tl s3 else []);
          eneg = (s4 \<noteq> [] \<and> hd s4 = 0x2D);
          ep = takeWhile is_digit (if s4 \<noteq> [] \<and> (hd s4 = 0x2D \<or> hd s4 = 0x2B) then tl s4 else s4)
      in if take 8 s1 = str ''Infinity'' then Infinity neg
         else if ip = [] \<and> fp = [] then NaN
         else number_of_decimal neg (digits_value (ip @ fp))
                ((if eneg then - int (digits_value ep) else int (digits_value ep))
                 - int (length fp)))"

text \<open>The value of a digit of \<open>parseInt\<close> in a radix up to 36.\<close>

definition radix_digit :: "jschar \<Rightarrow> nat option" where
  "radix_digit c =
     (let n = unat c in
      if 48 \<le> n \<and> n \<le> 57 then Some (n - 48)
      else if 65 \<le> n \<and> n \<le> 90 then Some (n - 55)
      else if 97 \<le> n \<and> n \<le> 122 then Some (n - 87)
      else None)"

definition in_radix :: "nat \<Rightarrow> jschar \<Rightarrow> bool" where
  "in_radix r c = (case radix_digit c of None \<Rightarrow> False | Some d \<Rightarrow> d < r)"

definition radix_value :: "nat \<Rightarrow> jsstring \<Rightarrow> nat" where
  "radix_value r ds =
     foldl (\<lambda>a c. r * a + (case radix_digit c of None \<Rightarrow> 0 | Some d \<Rightarrow> d)) 0 ds"

text \<open>\<open>parseInt(string, radix)\<close>, the radix already converted by ToInt32. It does not throw.\<close>

definition parseInt :: "jsstring \<Rightarrow> int \<Rightarrow> jsnum" where
  "parseInt inputString radix =
     (let s = dropWhile StrWhiteSpaceChar inputString;
          neg = (s \<noteq> [] \<and> hd s = 0x2D);
          s1 = (if s \<noteq> [] \<and> (hd s = 0x2D \<or> hd s = 0x2B) then tl s else s);
          stripPrefix = (radix = 0 \<or> radix = 16);
          hex = (stripPrefix \<and> (take 2 s1 = str ''0x'' \<or> take 2 s1 = str ''0X''));
          r = (if hex then 16 else if radix = 0 then 10 else nat radix);
          z = takeWhile (in_radix r) (if hex then drop 2 s1 else s1)
      in if radix \<noteq> 0 \<and> (radix < 2 \<or> 36 < radix) then NaN
         else if z = [] then NaN
         else number_of_decimal neg (radix_value r z) 0)"

text \<open>
  \<open>Number.prototype.toFixed\<close>. Of a finite number below \<open>10^21\<close> in magnitude it takes
  the integer \<open>n\<close> with \<open>n / 10^f\<close> nearest to the magnitude, the larger of two that
  are as near, and prints its digits with the point before the last \<open>f\<close>, after
  zeros put in front where the digits are \<open>f\<close> at most.
\<close>

definition fixed_digits :: "nat \<Rightarrow> nat \<Rightarrow> jsstring" where
  "fixed_digits n f =
     (let m = show_nat n;
          m1 = (if length m \<le> f then replicate (f + 1 - length m) 0x30 @ m else m)
      in if f = 0 then m else take (length m1 - f) m1 @ [0x2E] @ drop (length m1 - f) m1)"

definition toFixed :: "format_env \<Rightarrow> jsnum \<Rightarrow> jsval \<Rightarrow> jsexn + jsstring" where
  "toFixed env x fractionDigits =
     (case ToIntegerOrInfinity (ToNumber env fractionDigits) of
        None \<Rightarrow> Inl RangeError
      | Some f \<Rightarrow>
          if f < 0 \<or> 100 < f then Inl RangeError
          else (case x of
                  NaN \<Rightarrow> Inr (Number_toString x)
                | Infinity neg \<Rightarrow> Inr (Number_toString x)
                | _ \<Rightarrow>
                    if 10 ^ 21 * snd (magnitude x) \<le> fst (magnitude x)
                    then Inr (Number_toString x)
                    else Inr ((if is_negative x then [0x2D] else [])
                              @ fixed_digits
                                  ((2 * fst (magnitude x) * 10 ^ nat f + snd (magnitude x))
                                   div (2 * snd (magnitude x)))
                                  (nat f))))"

text \<open>
  The property read \<open>v.k\<close>: a TypeError on \<open>undefined\<close> and \<open>null\<close>, the own property
  otherwise. The keys the sources read are neither \<open>length\<close> nor a method.
\<close>

definition GetV :: "jsval \<Rightarrow> jsstring \<Rightarrow> jsexn + jsval" where
  "GetV v k =
     (case v of
        JUndefined \<Rightarrow> Inl TypeError
      | JNull \<Rightarrow> Inl TypeError
      | _ \<Rightarrow> Inr (Get (own_props v) k))"

text \<open>\<open>Array.prototype.join(sep)\<close>.\<close>

definition Array_join :: "jsval list \<Rightarrow> jsval \<Rightarrow> jsstring" where
  "Array_join xs sep =
     join (if sep = JUndefined then [0x2C] else ToString sep) (ToString_elements xs)"


subsection \<open>The format factory registry\<close>

text \<open>A render function, of the value of the cell and the record of the record.\<close>

type_synonym render = "jsval \<Rightarrow> jsval \<Rightarrow> jsexn + jsval"

definition DEFAULT_EMPTY_VALUE :: jsval where
  "DEFAULT_EMPTY_VALUE = JStr (str ''-'')"

definition DEFAULT_FORMAT_OPTIONS :: "jsstring \<Rightarrow> jsval" where
  "DEFAULT_FORMAT_OPTIONS name =
     (if name = str ''date'' then JObj [(str ''pattern'', JStr (str ''YYYY-MM-DD''))]
      else if name = str ''datetime'' then JObj [(str ''pattern'', JStr (str ''YYYY-MM-DD HH:mm:ss''))]
      else if name = str ''number'' then JObj [(str ''digits'', JNum (Intg 0))]
      else if name = str ''int'' then JObj [(str ''radix'', JNum (Intg 10))]
      else if name = str ''money'' then JObj [(str ''symbol'', JStr [])]
      else if name = str ''constant'' then JObj [(str ''origin'', JNull)]
      else if name = str ''join'' then
        JObj [(str ''with'', JStr []), (str ''sep'', JStr (str ''-'')), (str ''format'', JUndefined)]
      else JUndefined)"

text \<open>\<open>{ ...DEFAULT_FORMAT_OPTIONS[name], ...opt }\<close>.\<close>

definition with_defaults :: "jsstring \<Rightarrow> jsval \<Rightarrow> (jsstring \<times> jsval) list" where
  "with_defaults name opt = object_spread (object_spread [] (DEFAULT_FORMAT_OPTIONS name)) opt"

text \<open>\<open>try { return body } catch (e) { return value }\<close>.\<close>

definition catch_return :: "jsval \<Rightarrow> jsexn + jsval \<Rightarrow> jsexn + jsval" where
  "catch_return value body = (case body of Inl e \<Rightarrow> Inr value | Inr r \<Rightarrow> Inr r)"

definition date_factory :: "format_env \<Rightarrow> jsstring \<Rightarrow> jsval \<Rightarrow> render" where
  "date_factory env name opt =
     (let opt' = with_defaults name opt
      in (\<lambda>value record.
           Inr (if truthy value then moment_format env value (Get opt' (str ''pattern''))
                else Get opt' (str ''default''))))"

definition number_factory :: "format_env \<Rightarrow> jsval \<Rightarrow> render" where
  "number_factory env opt =
     (let opt' = with_defaults (str ''number'') opt
      in (\<lambda>value record.
           catch_return value
             (if isEmpty value then Inr (Get opt' (str ''default''))
              else (case toFixed env (parseFloat (ToString value)) (Get opt' (str ''digits'')) of
                      Inl e \<Rightarrow> Inl e
                    | Inr t \<Rightarrow> Inr (JStr t)))))"

text \<open>The factory of \<open>int\<close> merges over the defaults of \<open>number\<close>, as the source does.\<close>

definition int_factory :: "format_env \<Rightarrow> jsval \<Rightarrow> render" where
  "int_factory env opt =
     (let opt' = with_defaults (str ''number'') opt
      in (\<lambda>value record.
           catch_return value
             (if isEmpty value then Inr (Get opt' (str ''default''))
              else Inr (JNum (parseInt (ToString value)
                                (ToInt32 (ToNumber env (Get opt' (str ''radix'')))))))))"

definition money_factory :: "format_env \<Rightarrow> jsval \<Rightarrow> render" where
  "money_factory env opt =
     (let opt' = with_defaults (str ''money'') opt
      in (\<lambda>value record.
           catch_return value
             (if isEmpty value then Inr (Get opt' (str ''default'')) else renderPrice env value)))"

definition constant_factory :: "format_env \<Rightarrow> jsval \<Rightarrow> render" where
  "constant_factory env opt =
     (let opt' = with_defaults (str ''constant'') opt
      in (\<lambda>value record.
           if truthy (Get opt' (str ''origin''))
           then (case enum_valueOf env (Get opt' (str ''origin'')) value of
                   Inl e \<Rightarrow> Inl e
                 | Inr d \<Rightarrow> GetV d (str ''name''))
           else Inr value))"

text \<open>\<open>keys.map((key) => record[key] ?? "")\<close>.\<close>

fun record_values :: "jsval \<Rightarrow> jsval list \<Rightarrow> jsexn + jsval list" where
  "record_values record [] = Inr []"
| "record_values record (key # keys) =
     (case GetV record (ToString key) of
        Inl e \<Rightarrow> Inl e
      | Inr v \<Rightarrow>
          (case record_values record keys of
             Inl e \<Rightarrow> Inl e
           | Inr vs \<Rightarrow> Inr ((if v = JUndefined \<or> v = JNull then JStr [] else v) # vs)))"

text \<open>\<open>values.map((el) => formatter(el, undefined, undefined))\<close>.\<close>

fun format_each :: "render \<Rightarrow> jsval list \<Rightarrow> jsexn + jsval list" where
  "format_each formatter [] = Inr []"
| "format_each formatter (el # els) =
     (case formatter el JUndefined of
        Inl e \<Rightarrow> Inl e
      | Inr r \<Rightarrow> (case format_each formatter els of Inl e \<Rightarrow> Inl e | Inr rs \<Rightarrow> Inr (r # rs)))"

text \<open>
  The factory of \<open>join\<close>, over \<open>formatGenerate\<close> for the format it applies to each
  joined value.
\<close>

definition join_factory ::
  "(jsval \<Rightarrow> jsval \<Rightarrow> jsexn + render option) \<Rightarrow> jsval \<Rightarrow> render" where
  "join_factory generate opt =
     (let opt' = with_defaults (str ''join'') opt;
          format = Get opt' (str ''format'');
          sep = Get opt' (str ''sep'');
          with' = Get opt' (str ''with'');
          keys = (if truthy with' then with' else JArr [])
      in (\<lambda>value record.
           (case (case keys of
                    JStr s \<Rightarrow> record_values record [keys]
                  | JArr ks \<Rightarrow> record_values record ks
                  | _ \<Rightarrow> Inl TypeError) of
              Inl e \<Rightarrow> Inl e
            | Inr vs \<Rightarrow>
                if \<not> truthy format then Inr (JStr (Array_join (value # vs) sep))
                else (case generate format opt of
                        Inl e \<Rightarrow> Inl e
                      | Inr None \<Rightarrow> Inl TypeError
                      | Inr (Some formatter) \<Rightarrow>
                          (case format_each formatter (value # vs) of
                             Inl e \<Rightarrow> Inl e
                           | Inr rs \<Rightarrow> Inr (JStr (Array_join rs sep)))))))"

text \<open>The table of factories; \<open>None\<close> for a name it does not have.\<close>

definition DEFAULT_FORMAT_RENDER_FACTORY ::
  "format_env \<Rightarrow> (jsval \<Rightarrow> jsval \<Rightarrow> jsexn + render option) \<Rightarrow> jsstring \<Rightarrow>
   (jsval \<Rightarrow> render) option" where
  "DEFAULT_FORMAT_RENDER_FACTORY env generate name =
     (if name = str ''date'' \<or> name = str ''datetime'' then Some (date_factory env name)
      else if name = str ''number'' then Some (number_factory env)
      else if name = str ''int'' then Some (int_factory env)
      else if name = str ''money'' then Some (money_factory env)
      else if name = str ''constant'' then Some (constant_factory env)
      else if name = str ''join'' then Some (join_factory generate)
      else None)"

text \<open>
  \<open>formatGenerate(info, options)\<close>, over itself for the nested call of \<open>join\<close>:
  \<open>Inr None\<close> for \<open>undefined\<close>, \<open>Inl\<close> an exception thrown.
\<close>

definition formatGenerate_step ::
  "format_env \<Rightarrow> (jsval \<Rightarrow> jsval \<Rightarrow> jsexn + render option) \<Rightarrow>
   jsval \<Rightarrow> jsval \<Rightarrow> jsexn + render option" where
  "formatGenerate_step env generate info options =
     (if \<not> truthy info then Inr None
      else (let f0 = (case info of JStr s \<Rightarrow> info | _ \<Rightarrow> Get (own_props info) (str ''0''));
                f1 = (case info of JStr s \<Rightarrow> JNull | _ \<Rightarrow> Get (own_props info) (str ''1''))
            in case DEFAULT_FORMAT_RENDER_FACTORY env generate (ToString f0) of
                 None \<Rightarrow> Inl TypeError
               | Some factory \<Rightarrow>
                   if truthy f1 then
                     (case GetV options (str ''default'') of
                        Inl e \<Rightarrow> Inl e
                      | Inr d \<Rightarrow> Inr (Some (factory (JObj (object_spread [(str ''default'', d)] f1)))))
                   else Inr (Some (factory JNull))))"

text \<open>
  The nesting of \<open>join\<close> formats, by fuel: a nested format is a proper part of
  the format that holds it, so the size of \<open>info\<close> bounds the depth.
\<close>

primrec formatGenerate_upto ::
  "format_env \<Rightarrow> nat \<Rightarrow> jsval \<Rightarrow> jsval \<Rightarrow> jsexn + render option" where
  "formatGenerate_upto env 0 = (\<lambda>info options. Inl RangeError)"
| "formatGenerate_upto env (Suc n) = formatGenerate_step env (formatGenerate_upto env n)"

definition formatGenerate :: "format_env \<Rightarrow> jsval \<Rightarrow> jsval \<Rightarrow> jsexn + render option" where
  "formatGenerate env info options = formatGenerate_upto env (Suc (size info)) info options"

subsection \<open>The column resolver\<close>

text \<open>
  The value formatting of one declared field in \<open>useColumns\<close> (the copy of the
  options, the default of \<open>default\<close>, the format render and the render of
  \<open>amend\<close>): the render the field has before any truncation wraps it.
\<close>

definition useColumns_render :: "format_env \<Rightarrow> jsval \<Rightarrow> jsexn + render option" where
  "useColumns_render env options =
     (let o1 = object_spread [] options;
          d = Get o1 (str ''default'');
          options' = assign_property o1 (str ''default'')
                       (if d = JUndefined \<or> d = JNull then DEFAULT_EMPTY_VALUE else d)
      in case formatGenerate env (Get options' (str ''format'')) (JObj options') of
           Inl e \<Rightarrow> Inl e
         | Inr (Some render') \<Rightarrow> Inr (Some render')
         | Inr None \<Rightarrow>
             if truthy (Get options' (str ''amend''))
             then Inr (Some (\<lambda>value record.
                               Inr (if isEmpty value then Get options' (str ''default'')
                                    else value)))
             else Inr None)"

text \<open>The value a column shows: its render applied, or the raw value without one.\<close>

definition rendered :: "jsexn + render option \<Rightarrow> jsval \<Rightarrow> jsval \<Rightarrow> jsexn + jsval" where
  "rendered r value record =
     (case r of Inl e \<Rightarrow> Inl e | Inr None \<Rightarrow> Inr value | Inr (Some f) \<Rightarrow> f value record)"

section \<open>What the codec carries exactly\<close>

text \<open>
  The predicates the round-trip properties are stated with. They are not in the
  source: they name the texts and the values on which the functions of the
  platform lose nothing.
\<close>

text \<open>A string without a lone surrogate.\<close>

fun well_formed :: "jsstring \<Rightarrow> bool" where
  "well_formed [] = True"
| "well_formed [c] = (\<not> high_surrogate c \<and> \<not> low_surrogate c)"
| "well_formed (c # d # cs) =
     (if high_surrogate c then low_surrogate d \<and> well_formed cs
      else \<not> low_surrogate c \<and> well_formed (d # cs))"



text \<open>The first code unit of the text of a value: no white space, no closing bracket.\<close>

definition value_start :: "jsstring \<Rightarrow> bool" where
  "value_start t \<longleftrightarrow> t \<noteq> [] \<and> \<not> json_ws (hd t) \<and> hd t \<noteq> 0x5D \<and> hd t \<noteq> 0x7D"


section \<open>Properties of objects\<close>

lemma str_inj: "str a = str b \<longleftrightarrow> a = b"
proof -
  have "inj (\<lambda>c::char. (of_nat (of_char c) :: 16 word))"
  proof (rule injI)
    fix x y :: char
    assume h: "(of_nat (of_char x) :: 16 word) = of_nat (of_char y)"
    have bx: "(of_char x :: nat) < 65536" and bY: "(of_char y :: nat) < 65536"
      using nat_of_char_less_256 [of x] nat_of_char_less_256 [of y]
      by linarith+
    have "unat (of_nat (of_char x) :: 16 word) = unat (of_nat (of_char y) :: 16 word)"
      using h by simp
    then have "(of_char x :: nat) = of_char y"
      using bx bY by (simp add: unat_of_nat)
    then show "x = y" by simp
  qed
  then show ?thesis
    unfolding str_def by (simp add: inj_map_eq_map)
qed

lemma map_of_CreateDataProperty:
  "map_of (CreateDataProperty kvs k v) = (map_of kvs)(k \<mapsto> v)"
  by (induction kvs) (auto simp: fun_eq_iff)

lemma map_of_fold_CreateDataProperty:
  "map_of (fold (\<lambda>(k, v) t. CreateDataProperty t k v) ps t) = map_of t ++ map_of (rev ps)"
proof (induction ps arbitrary: t)
  case Nil
  then show ?case by simp
next
  case (Cons p ps)
  obtain k v where p: "p = (k, v)" by (cases p)
  show ?case
    by (simp add: p Cons.IH map_of_CreateDataProperty map_add_upd_left fun_eq_iff map_add_def
        split: option.splits)
qed

lemma map_of_rev_distinct:
  "distinct (map fst ps) \<Longrightarrow> map_of (rev ps) = map_of ps"
  by (rule map_of_inject_set [THEN iffD2]) (simp_all add: distinct_rev rev_map [symmetric])

lemma map_of_object_spread:
  "wf_props (own_props src) \<Longrightarrow>
   map_of (object_spread tgt src) = map_of tgt ++ map_of (own_props src)"
  by (simp add: object_spread_def wf_props_def map_of_fold_CreateDataProperty map_of_rev_distinct)

lemma Get_object_spread:
  "Get (object_spread tgt src) k =
     (if k \<in> fst ` set (own_props src) then Get (own_props src) k else Get tgt k)"
  if "wf_props (own_props src)"
proof (cases "map_of (own_props src) k")
  case None
  then have "k \<notin> fst ` set (own_props src)"
    by (simp add: map_of_eq_None_iff)
  with None that show ?thesis
    by (simp add: Get_def map_of_object_spread map_add_def)
next
  case (Some v)
  then have "k \<in> fst ` set (own_props src)"
    by (metis map_of_eq_None_iff option.distinct(1))
  with Some that show ?thesis
    by (simp add: Get_def map_of_object_spread map_add_def)
qed

lemma wf_PageQuery_props: "wf_props (PageQuery_props pq)"
  by (simp add: wf_props_def PageQuery_props_def str_inj)

section \<open>Properties of the trigger\<close>

text \<open>
  C2. Calling the trigger with a query payload (any truthy \<open>searchData\<close>) stores that
  payload and leaves the stored page at 1, whatever pagination argument comes with
  it: the pagination argument, when given, only decides the stored page size,
  because the payload's reset of the page is applied after the pagination step.
\<close>

theorem trigger_query_resets_page:
  assumes "truthy searchData"
  shows "page (paginationRef (fst (searchRef_call searchData pagination e))) = 1
       \<and> pageSize (paginationRef (fst (searchRef_call searchData pagination e))) =
           (case pagination of None \<Rightarrow> pageSize (paginationRef e) | Some pg \<Rightarrow> pageSize pg)
       \<and> searchDataRef (fst (searchRef_call searchData pagination e)) = searchData"
  using assms by (simp add: searchRef_call_def Let_def split: option.splits)

theorem trigger_query_resets_page_witness:
  "truthy (JObj [(str ''name'', JStr (str ''x''))])
   \<and> page (paginationRef (fst (searchRef_call (JObj [(str ''name'', JStr (str ''x''))])
        (Some \<lparr>page = 3, pageSize = 20\<rparr>)
        \<lparr>loading = False, pageData = JUndefined, searchDataRef = JObj [],
         paginationRef = \<lparr>page = 5, pageSize = 20\<rparr>, staticParams = JObj [],
         storageRef = []\<rparr>))) = 1"
  using trigger_query_resets_page
    [of "JObj [(str ''name'', JStr (str ''x''))]" "Some \<lparr>page = 3, pageSize = 20\<rparr>"
        "\<lparr>loading = False, pageData = JUndefined, searchDataRef = JObj [],
         paginationRef = \<lparr>page = 5, pageSize = 20\<rparr>, staticParams = JObj [],
         storageRef = []\<rparr>"]
  by simp

text \<open>
  C3. Calling the trigger with a pagination argument and no query payload (the
  payload omitted or null) adopts the argument's page size; the stored page
  becomes the argument's page when the argument's page size equals the stored
  one, and 1 when it differs. The stored query payload is untouched.
\<close>

theorem trigger_pagination_only:
  assumes "\<not> truthy searchData"
  shows "paginationRef (fst (searchRef_call searchData (Some pg) e)) =
           \<lparr>page = (if pageSize pg = pageSize (paginationRef e) then page pg else 1),
            pageSize = pageSize pg\<rparr>
       \<and> searchDataRef (fst (searchRef_call searchData (Some pg) e)) = searchDataRef e"
  using assms by (simp add: searchRef_call_def Let_def)

theorem trigger_pagination_only_witness:
  "\<not> truthy JNull
   \<and> paginationRef (fst (searchRef_call JNull (Some \<lparr>page = 3, pageSize = 20\<rparr>)
        \<lparr>loading = False, pageData = JUndefined, searchDataRef = JObj [],
         paginationRef = \<lparr>page = 7, pageSize = 20\<rparr>, staticParams = JObj [],
         storageRef = []\<rparr>)) = \<lparr>page = 3, pageSize = 20\<rparr>
   \<and> paginationRef (fst (searchRef_call JNull (Some \<lparr>page = 3, pageSize = 20\<rparr>)
        \<lparr>loading = False, pageData = JUndefined, searchDataRef = JObj [],
         paginationRef = \<lparr>page = 7, pageSize = 10\<rparr>, staticParams = JObj [],
         storageRef = []\<rparr>)) = \<lparr>page = 1, pageSize = 20\<rparr>"
  using trigger_pagination_only
    [of JNull "\<lparr>page = 3, pageSize = 20\<rparr>"
        "\<lparr>loading = False, pageData = JUndefined, searchDataRef = JObj [],
         paginationRef = \<lparr>page = 7, pageSize = 20\<rparr>, staticParams = JObj [],
         storageRef = []\<rparr>"]
    trigger_pagination_only
    [of JNull "\<lparr>page = 3, pageSize = 20\<rparr>"
        "\<lparr>loading = False, pageData = JUndefined, searchDataRef = JObj [],
         paginationRef = \<lparr>page = 7, pageSize = 10\<rparr>, staticParams = JObj [],
         storageRef = []\<rparr>"]
  by simp

text \<open>
  C10. Calling the trigger with no arguments changes none of the stored query
  payload, the stored pagination and the static payload, and hands the query
  function the object \<open>{...searchData, ...pagination, ...static}\<close> built from those
  stored values: read key by key, a key of the static payload has the static
  value, otherwise \<open>page\<close> and \<open>pageSize\<close> have the stored pagination's values, and
  any other key has the stored query payload's value.
\<close>

theorem trigger_no_arguments:
  assumes "wf_props (own_props (searchDataRef e))"
      and "wf_props (own_props (staticParams e))"
      and "searchRef_call JUndefined None e = (e', request)"
  shows "searchDataRef e' = searchDataRef e
       \<and> paginationRef e' = paginationRef e
       \<and> staticParams e' = staticParams e
       \<and> (\<exists>kvs. request = JObj kvs \<and>
            (\<forall>k. Get kvs k =
               (if k \<in> fst ` set (own_props (staticParams e))
                then Get (own_props (staticParams e)) k
                else if k = str ''page'' then JNum (Intg (page (paginationRef e)))
                else if k = str ''pageSize'' then JNum (Intg (pageSize (paginationRef e)))
                else Get (own_props (searchDataRef e)) k)))"
proof -
  from assms(3) have e': "e' = e\<lparr>loading := True\<rparr>"
    and req: "request = JObj (object_spread (object_spread (object_spread [] (searchDataRef e))
                 (JObj (PageQuery_props (paginationRef e)))) (staticParams e))"
    by (simp_all add: searchRef_call_def Let_def)
  have pq: "wf_props (own_props (JObj (PageQuery_props (paginationRef e))))"
    by (simp add: wf_PageQuery_props)
  have absent: "Get (own_props (searchDataRef e)) k = JUndefined"
    if "k \<notin> fst ` set (own_props (searchDataRef e))" for k
    using that by (simp add: Get_def map_of_eq_None_iff [THEN iffD2])
  have "Get (object_spread (object_spread (object_spread [] (searchDataRef e))
                 (JObj (PageQuery_props (paginationRef e)))) (staticParams e)) k =
        (if k \<in> fst ` set (own_props (staticParams e))
         then Get (own_props (staticParams e)) k
         else if k = str ''page'' then JNum (Intg (page (paginationRef e)))
         else if k = str ''pageSize'' then JNum (Intg (pageSize (paginationRef e)))
         else Get (own_props (searchDataRef e)) k)" for k
    unfolding Get_object_spread [OF assms(2)] Get_object_spread [OF pq]
      Get_object_spread [OF assms(1)]
    by (simp add: PageQuery_props_def str_inj absent) (simp add: Get_def str_inj)
  with e' req show ?thesis by simp
qed

theorem trigger_no_arguments_witness:
  "searchRef_call JUndefined None
     \<lparr>loading = False, pageData = JUndefined,
      searchDataRef = JObj [(str ''name'', JStr (str ''x''))],
      paginationRef = \<lparr>page = 2, pageSize = 10\<rparr>,
      staticParams = JObj [(str ''tenant'', JNum (Intg 7))], storageRef = []\<rparr>
   = (\<lparr>loading = True, pageData = JUndefined,
      searchDataRef = JObj [(str ''name'', JStr (str ''x''))],
      paginationRef = \<lparr>page = 2, pageSize = 10\<rparr>,
      staticParams = JObj [(str ''tenant'', JNum (Intg 7))], storageRef = []\<rparr>,
      JObj [(str ''name'', JStr (str ''x'')), (str ''page'', JNum (Intg 2)),
            (str ''pageSize'', JNum (Intg 10)), (str ''tenant'', JNum (Intg 7))])
   \<and> Get [(str ''name'', JStr (str ''x'')), (str ''page'', JNum (Intg 2)),
           (str ''pageSize'', JNum (Intg 10)), (str ''tenant'', JNum (Intg 7))] (str ''page'')
     = JNum (Intg 2)"
proof -
  let ?e = "\<lparr>loading = False, pageData = JUndefined,
      searchDataRef = JObj [(str ''name'', JStr (str ''x''))],
      paginationRef = \<lparr>page = 2, pageSize = 10\<rparr>,
      staticParams = JObj [(str ''tenant'', JNum (Intg 7))], storageRef = []\<rparr>"
  have call: "searchRef_call JUndefined None ?e
     = (?e\<lparr>loading := True\<rparr>,
        JObj [(str ''name'', JStr (str ''x'')), (str ''page'', JNum (Intg 2)),
              (str ''pageSize'', JNum (Intg 10)), (str ''tenant'', JNum (Intg 7))])"
    by (simp add: searchRef_call_def Let_def object_spread_def PageQuery_props_def str_inj)
  have w1: "wf_props (own_props (searchDataRef ?e))"
    and w2: "wf_props (own_props (staticParams ?e))"
    by (simp_all add: wf_props_def)
  from trigger_no_arguments [OF w1 w2 call] call show ?thesis
    by (auto simp: str_inj)
qed

section \<open>Properties of the platform functions\<close>

subsection \<open>encodeURIComponent and decodeURIComponent\<close>




lemma unat_of_nat16: "n < 65536 \<Longrightarrow> unat (of_nat n :: 16 word) = n"
  by (simp add: unat_of_nat)

lemma unat_lt16: "unat (c :: 16 word) < 65536"
  using unsigned_less [of c, where 'a = nat] by simp












lemma utf8_octets_shape:
  assumes "0x80 \<le> cp" "cp < 0x110000"
  shows "\<exists>b bs. utf8_octets cp = b # bs \<and> 0xC0 \<le> b \<and> b < 0xF8
           \<and> length bs = (if b < 0xE0 then 1 else if b < 0xF0 then 2 else 3)
           \<and> list_all (\<lambda>b. b < 256) bs"
proof -
  have m: "cp mod 64 < 64" "cp div 64 mod 64 < 64" "cp div 4096 mod 64 < 64"
    by simp_all
  have d: "cp < 0x800 \<Longrightarrow> cp div 64 < 32" "cp < 0x10000 \<Longrightarrow> cp div 4096 < 16"
    "cp div 262144 < 8"
    using assms by (simp_all add: less_mult_imp_div_less)
  consider (two) "cp < 0x800" | (three) "0x800 \<le> cp" "cp < 0x10000" | (four) "0x10000 \<le> cp"
    by linarith
  then show ?thesis
  proof cases
    case two
    with assms m d(1) show ?thesis by (auto simp: utf8_octets_def)
  next
    case three
    with assms m d(2) show ?thesis by (auto simp: utf8_octets_def)
  next
    case four
    with assms m d(3) show ?thesis by (auto simp: utf8_octets_def)
  qed
qed



lemma prepend_Inr: "prepend p r = Inr t \<longleftrightarrow> (\<exists>t'. r = Inr t' \<and> t = p @ t')"
  by (auto simp: prepend_def split: sum.splits)

lemma prepend_Inr_simp [simp]: "prepend p (Inr t) = Inr (p @ t)"
  by (simp add: prepend_def)


lemma surrogate_pair_code_point:
  fixes c d :: "16 word"
  assumes c: "0xD800 \<le> unat c" "unat c < 0xDC00" and d: "0xDC00 \<le> unat d" "unat d \<le> 0xDFFF"
  defines "cp \<equiv> (unat c - 0xD800) * 0x400 + (unat d - 0xDC00) + 0x10000"
  shows "cp < 0x110000" "\<not> (0xD800 \<le> cp \<and> cp \<le> 0xDFFF)" "UTF16EncodeCodePoint cp = [c, d]"
proof -
  have lo: "unat d - 0xDC00 < 0x400" and hi: "unat c - 0xD800 < 0x400"
    using c d by linarith+
  show "cp < 0x110000" "\<not> (0xD800 \<le> cp \<and> cp \<le> 0xDFFF)"
    using lo hi by (simp_all add: cp_def)
  have "(cp - 0x10000) div 0x400 = unat c - 0xD800" "(cp - 0x10000) mod 0x400 = unat d - 0xDC00"
    using lo by (simp_all add: cp_def)
  then show "UTF16EncodeCodePoint cp = [c, d]"
    using c d by (simp add: UTF16EncodeCodePoint_def cp_def)
qed


lemma encodeURIComponent_total:
  "well_formed s \<Longrightarrow> \<exists>t. encodeURIComponent s = Inr t"
proof (induction s rule: well_formed.induct)
  case 1
  then show ?case by simp
next
  case (2 c)
  then show ?case
    by (auto simp: high_surrogate_def low_surrogate_def Let_def)
next
  case (3 c d cs)
  show ?case
  proof (cases "high_surrogate c")
    case True
    with 3 obtain t where "encodeURIComponent cs = Inr t" by auto
    with True 3 show ?thesis
      by (auto simp: high_surrogate_def low_surrogate_def Let_def uri_unescaped_def)
  next
    case False
    with 3 obtain t where "encodeURIComponent (d # cs) = Inr t" by auto
    with False 3 show ?thesis
      by (auto simp: high_surrogate_def low_surrogate_def Let_def simp del: encodeURIComponent.simps
          simp add: encodeURIComponent.simps(2) [of c])
  qed
qed

subsection \<open>btoa and atob\<close>

text \<open>
  \<open>atob\<close> undoes \<open>btoa\<close> on every string of code units up to 255, and the text of
  \<open>btoa\<close> has no \<open>%\<close> and no code unit above 127.
\<close>

lemma div_pack: "x < k \<Longrightarrow> (m * k + x) div k = (m::nat)"
  by simp

lemma mod_pack: "x < k \<Longrightarrow> (m * k + x) mod k = (x::nat)"
  by simp

lemma octets_of_sextets_of:
  "list_all (\<lambda>b. b < 256) bs \<Longrightarrow> octets_of (sextets_of bs) = bs"
proof (induction bs rule: sextets_of.induct)
  case (1 a b c bs)
  have b: "b div 16 < 16" and c: "c div 64 < 4"
    using 1(2) by (simp_all add: less_mult_imp_div_less)
  have e: "a div 4 * 4 + (a mod 4 * 16 + b div 16) div 16 = a"
    "(a mod 4 * 16 + b div 16) mod 16 * 16 + (b mod 16 * 4 + c div 64) div 4 = b"
    "(b mod 16 * 4 + c div 64) mod 4 * 64 + c mod 64 = c"
    using b c by (simp_all add: div_pack mod_pack)
  from 1 have "octets_of (sextets_of bs) = bs" by simp
  with e show ?case by simp
next
  case (2 a b)
  have b: "b div 16 < 16"
    using 2 by (simp add: less_mult_imp_div_less)
  have "a div 4 * 4 + (a mod 4 * 16 + b div 16) div 16 = a"
    "(a mod 4 * 16 + b div 16) mod 16 * 16 + (b mod 16 * 4) div 4 = b"
    using b by (simp_all add: div_pack mod_pack)
  then show ?case by simp
next
  case (3 a)
  have "a div 4 * 4 + (a mod 4 * 16) div 16 = a" by simp
  then show ?case by simp
next
  case 4
  then show ?case by simp
qed

lemma sextets_of_bound:
  "list_all (\<lambda>b. b < 256) bs \<Longrightarrow> list_all (\<lambda>v. v < 64) (sextets_of bs)"
proof (induction bs rule: sextets_of.induct)
  case (1 a b c bs)
  have "a div 4 < 64" "b div 16 < 16" "c div 64 < 4" "a mod 4 < 4" "b mod 16 < 16" "c mod 64 < 64"
    using 1(2) by (simp_all add: less_mult_imp_div_less)
  then have "a div 4 < 64" "a mod 4 * 16 + b div 16 < 64" "b mod 16 * 4 + c div 64 < 64"
    "c mod 64 < 64"
    by linarith+
  moreover from 1 have "list_all (\<lambda>v. v < 64) (sextets_of bs)" by simp
  ultimately show ?case by simp
next
  case (2 a b)
  have "a div 4 < 64" "b div 16 < 16" "a mod 4 < 4" "b mod 16 < 16"
    using 2 by (simp_all add: less_mult_imp_div_less)
  then have "a div 4 < 64" "a mod 4 * 16 + b div 16 < 64" "b mod 16 * 4 < 64"
    by linarith+
  then show ?case by simp
next
  case (3 a)
  have "a div 4 < 64" "a mod 4 < 4"
    using 3 by (simp_all add: less_mult_imp_div_less)
  then have "a div 4 < 64" "a mod 4 * 16 < 64"
    by linarith+
  then show ?case by simp
next
  case 4
  then show ?case by simp
qed

lemma length_sextets_of:
  "length (sextets_of bs) mod 4 = (if length bs mod 3 = 0 then 0 else length bs mod 3 + 1)"
proof (induction bs rule: sextets_of.induct)
  case (1 a b c bs)
  have "length (a # b # c # bs) = length bs + 3"
    "length (sextets_of (a # b # c # bs)) = length (sextets_of bs) + 4"
    by simp_all
  then have "length (a # b # c # bs) mod 3 = length bs mod 3"
    "length (sextets_of (a # b # c # bs)) mod 4 = length (sextets_of bs) mod 4"
    by (simp_all only: mod_add_self2)
  with 1 show ?case by (simp only:)
qed simp_all

lemma unat_base64_char:
  "v < 64 \<Longrightarrow> unat (base64_char v) =
     (if v < 26 then 65 + v else if v < 52 then 71 + v else if v < 62 then v - 4
      else if v = 62 then 43 else 47)"
  unfolding base64_char_def by (rule unat_of_nat16) auto

lemma base64_value_char: "v < 64 \<Longrightarrow> base64_value (base64_char v) = Some v"
  by (auto simp: base64_value_def unat_base64_char Let_def)

lemma base64_char_plain:
  assumes "v < 64"
  shows "\<not> ascii_whitespace (base64_char v)" "base64_char v \<noteq> 0x3D" "base64_char v \<noteq> 0x25"
    "unat (base64_char v) < 0x80"
proof -
  have u: "unat (0x3D :: 16 word) = 61" "unat (0x25 :: 16 word) = 37"
    "unat (9 :: 16 word) = 9" "unat (10 :: 16 word) = 10" "unat (12 :: 16 word) = 12"
    "unat (13 :: 16 word) = 13" "unat (32 :: 16 word) = 32"
    by simp_all
  have ne: "base64_char v \<noteq> w" if "unat (base64_char v) \<noteq> unat w" for w
    using that by auto
  show "base64_char v \<noteq> 0x3D" "base64_char v \<noteq> 0x25"
    using assms by (auto intro!: ne simp: unat_base64_char u split: if_splits)
  show "\<not> ascii_whitespace (base64_char v)"
    unfolding ascii_whitespace_def de_Morgan_disj
    using assms by (auto intro!: ne simp: unat_base64_char u split: if_splits)
  show "unat (base64_char v) < 0x80"
    using assms by (auto simp: unat_base64_char)
qed


lemma strip_padding_padded:
  assumes "(length xs + k) mod 4 = 0" "k \<le> 2" "list_all (\<lambda>c. c \<noteq> 0x3D) xs"
  shows "strip_padding (xs @ replicate k 0x3D) = xs"
proof -
  consider (zero) "k = 0" | (one) "k = 1" | (two) "k = 2"
    using assms(2) by linarith
  then show ?thesis
  proof cases
    case zero
    show ?thesis
    proof (cases "rev xs")
      case Nil
      then show ?thesis by (simp add: strip_padding_def zero)
    next
      case (Cons e1 r)
      then have "e1 \<in> set xs" by (metis list.set_intros(1) set_rev)
      with assms(3) have "e1 \<noteq> 0x3D" by (simp add: list_all_iff)
      with Cons show ?thesis
        by (cases r) (simp_all add: strip_padding_def zero)
    qed
  next
    case one
    with assms(1) have "xs \<noteq> []" by auto
    then obtain e2 r where r: "rev xs = e2 # r"
      by (cases "rev xs") auto
    then have "e2 \<in> set xs" by (metis list.set_intros(1) set_rev)
    with assms(3) have "e2 \<noteq> 0x3D" by (simp add: list_all_iff)
    moreover have "rev (e2 # r) = xs" using r by (metis rev_rev_ident)
    ultimately show ?thesis
      using assms(1) by (simp add: strip_padding_def one r)
  next
    case two
    then show ?thesis
      using assms(1) by (simp add: strip_padding_def numeral_2_eq_2)
  qed
qed

lemma those_map_base64:
  "list_all (\<lambda>v. v < 64) vs \<Longrightarrow> those (map (base64_value \<circ> base64_char) vs) = Some vs"
  by (induction vs) (simp_all add: base64_value_char)

lemma atob_btoa:
  assumes "list_all (\<lambda>c. unat c \<le> 0xFF) s"
  shows "\<exists>t. btoa s = Inr t \<and> atob t = Inr s \<and> list_all (\<lambda>c. c \<noteq> 0x25 \<and> unat c < 0x80) t"
proof -
  let ?bs = "map unat s"
  let ?vs = "sextets_of ?bs"
  let ?k = "(3 - length s mod 3) mod 3"
  let ?xs = "map base64_char ?vs"
  have bs: "list_all (\<lambda>b. b < 256) ?bs"
    using assms by (induction s) simp_all
  have vs: "list_all (\<lambda>v. v < 64) ?vs"
    by (rule sextets_of_bound [OF bs])
  have btoa: "btoa s = Inr (?xs @ replicate ?k 0x3D)"
    using assms by (simp add: btoa_def list_ex_iff list_all_iff not_less)
  have plain: "list_all (\<lambda>c. \<not> ascii_whitespace c \<and> c \<noteq> 0x3D \<and> c \<noteq> 0x25 \<and> unat c < 0x80) ?xs"
    using vs by (simp add: list_all_iff base64_char_plain)
  have nows: "filter (\<lambda>c. \<not> ascii_whitespace c) (?xs @ replicate ?k 0x3D) = ?xs @ replicate ?k 0x3D"
    using plain by (auto simp: filter_id_conv list_all_iff ascii_whitespace_def)
  have len: "(length ?xs + ?k) mod 4 = 0" "?k \<le> 2" "length ?xs mod 4 \<noteq> 1"
  proof -
    have l: "length ?xs mod 4 = (if length s mod 3 = 0 then 0 else length s mod 3 + 1)"
      using length_sextets_of [of ?bs] by simp
    have m: "length s mod 3 < 3" by simp
    show "?k \<le> 2" using m by linarith
    show "length ?xs mod 4 \<noteq> 1" using l m by (simp split: if_splits)
    have "(length ?xs mod 4 + ?k) mod 4 = 0"
      using l m by (cases "length s mod 3 = 0"; cases "length s mod 3 = 1") auto
    then show "(length ?xs + ?k) mod 4 = 0"
      by (simp add: mod_add_left_eq)
  qed
  have strip: "strip_padding (?xs @ replicate ?k 0x3D) = ?xs"
    using len(1,2) plain by (intro strip_padding_padded) (simp_all add: list_all_iff)
  have "atob (?xs @ replicate ?k 0x3D) = Inr (map of_nat (octets_of ?vs))"
    unfolding atob_def nows strip Let_def
    using len(3) by (simp add: those_map_base64 [OF vs])
  also have "\<dots> = Inr s"
    by (simp add: octets_of_sextets_of [OF bs] map_idI)
  finally have "atob (?xs @ replicate ?k 0x3D) = Inr s" .
  moreover have "list_all (\<lambda>c. c \<noteq> 0x25 \<and> unat c < 0x80) (?xs @ replicate ?k 0x3D)"
    using plain by (auto simp: list_all_iff)
  ultimately show ?thesis using btoa by blast
qed

subsection \<open>Texts of code units below 128\<close>


lemma unat_hex_upper: "d < 16 \<Longrightarrow> unat (hex_upper d) < 0x80"
  unfolding hex_upper_def by (subst unat_of_nat16) auto

lemma utf8_octets_bound: "cp < 0x110000 \<Longrightarrow> list_all (\<lambda>b. b < 256) (utf8_octets cp)"
proof (cases "cp < 0x80")
  case True
  then show ?thesis by (simp add: utf8_octets_def)
next
  case False
  assume "cp < 0x110000"
  with False utf8_octets_shape [of cp] show ?thesis by auto
qed

lemma percent_octet_ascii: "b < 256 \<Longrightarrow> list_all (\<lambda>c. unat c < 0x80) (percent_octet b)"
  by (simp add: percent_octet_def unat_hex_upper less_mult_imp_div_less)

lemma percent_utf8_ascii: "cp < 0x110000 \<Longrightarrow> list_all (\<lambda>c. unat c < 0x80) (percent_utf8 cp)"
  using utf8_octets_bound [of cp]
  by (auto simp: percent_utf8_def list_all_iff dest: percent_octet_ascii [unfolded list_all_iff])

lemma encodeURIComponent_ascii:
  "encodeURIComponent s = Inr t \<Longrightarrow> list_all (\<lambda>c. unat c < 0x80) t"
proof (induction s arbitrary: t rule: encodeURIComponent.induct)
  case 1
  then show ?case by simp
next
  case (2 c cs)
  let ?n = "unat c"
  consider (plain) "uri_unescaped ?n"
    | (escaped) "\<not> uri_unescaped ?n" "?n < 0xD800 \<or> 0xDFFF < ?n"
    | (low) "\<not> uri_unescaped ?n" "0xDC00 \<le> ?n" "?n \<le> 0xDFFF"
    | (high) "\<not> uri_unescaped ?n" "0xD800 \<le> ?n" "?n < 0xDC00"
    by linarith
  then show ?case
  proof cases
    case plain
    with "2.prems" obtain t' where t': "encodeURIComponent cs = Inr t'" "t = c # t'"
      by (auto simp: prepend_Inr)
    have "?n < 0x80" using plain by (auto simp: uri_unescaped_def)
    with "2.IH"(1) [OF refl plain t'(1)] show ?thesis
      by (simp add: t'(2))
  next
    case escaped
    with "2.prems" obtain t' where t': "encodeURIComponent cs = Inr t'" "t = percent_utf8 ?n @ t'"
      by (auto simp: prepend_Inr)
    have "?n < 0x110000" using unat_lt16 [of c] by linarith
    with "2.IH"(2) [OF refl escaped t'(1)] show ?thesis
      by (simp add: t'(2) percent_utf8_ascii)
  next
    case low
    with "2.prems" show ?thesis by simp
  next
    case high
    with "2.prems" obtain d ds where cs: "cs = d # ds"
      by (cases cs) auto
    with high "2.prems" have d: "0xDC00 \<le> unat d" "unat d \<le> 0xDFFF"
      by (auto split: if_splits)
    let ?cp = "(?n - 0xD800) * 0x400 + (unat d - 0xDC00) + 0x10000"
    from high "2.prems" cs d obtain t' where
      t': "encodeURIComponent ds = Inr t'" "t = percent_utf8 ?cp @ t'"
      by (auto simp: prepend_Inr)
    have nl: "\<not> (?n < 0xD800 \<or> 0xDFFF < ?n)" "\<not> 0xDC00 \<le> ?n"
      using high by linarith+
    note sp = surrogate_pair_code_point [OF high(2,3) d]
    from "2.IH"(3) [OF refl high(1) nl cs _ t'(1)] d
    have "list_all (\<lambda>c. unat c < 0x80) t'" by simp
    then show ?thesis
      by (simp add: t'(2) percent_utf8_ascii [OF sp(1)])
  qed
qed

lemma well_formed_ascii: "list_all (\<lambda>c. unat c < 0xD800) t \<Longrightarrow> well_formed t"
  by (induction t rule: well_formed.induct)
     (auto simp: high_surrogate_def low_surrogate_def)

lemma well_formed_append: "well_formed a \<Longrightarrow> well_formed b \<Longrightarrow> well_formed (a @ b)"
proof (induction a rule: well_formed.induct)
  case 1
  then show ?case by simp
next
  case (2 c)
  then show ?case by (cases b) auto
next
  case (3 c d cs)
  then show ?case by (auto split: if_splits)
qed

subsection \<open>Strings in JSON\<close>

text \<open>The parser reads a quoted string back, whatever its code units.\<close>

lemma unat_hex_lower: "d < 16 \<Longrightarrow> unat (hex_lower d) < 0x80"
  unfolding hex_lower_def by (subst unat_of_nat16) auto







lemma well_formed_quote_unit:
  "well_formed (quote_unit False c)"
proof (cases "json_escape c")
  case (Some e)
  then have "list_all (\<lambda>c. unat c < 0xD800) e"
    by (auto simp: json_escape_def split: if_splits)
  with Some show ?thesis by (simp add: quote_unit_def well_formed_ascii)
next
  case None
  have "list_all (\<lambda>c. unat c < 0xD800) (UnicodeEscape c)"
  proof -
    have "unat c div 4096 < 16" using unat_lt16 [of c] by (simp add: less_mult_imp_div_less)
    then have "unat (hex_lower (unat c div 4096)) < 0x80" "unat (hex_lower (unat c div 256 mod 16)) < 0x80"
      "unat (hex_lower (unat c div 16 mod 16)) < 0x80" "unat (hex_lower (unat c mod 16)) < 0x80"
      by (simp_all add: unat_hex_lower)
    then show ?thesis by (simp add: UnicodeEscape_def Let_def)
  qed
  with None show ?thesis
    by (auto simp: quote_unit_def well_formed_ascii)
qed

lemma well_formed_quote_units: "well_formed (quote_units s)"
proof (induction s rule: quote_units.induct)
  case 1
  then show ?case by simp
next
  case (2 c)
  then show ?case by (simp add: well_formed_quote_unit)
next
  case (3 c d cs)
  show ?case
  proof (cases "high_surrogate c \<and> low_surrogate d")
    case True
    with 3 show ?thesis by simp
  next
    case False
    then have "quote_units (c # d # cs) = quote_unit False c @ quote_units (d # cs)"
      by auto
    moreover from False 3 have "well_formed (quote_units (d # cs))" by blast
    ultimately show ?thesis
      by (simp only: well_formed_append well_formed_quote_unit)
  qed
qed

lemma well_formed_QuoteJSONString: "well_formed (QuoteJSONString s)"
  unfolding QuoteJSONString_def
  by (intro well_formed_append well_formed_quote_units) (simp_all add: high_surrogate_def low_surrogate_def)

subsection \<open>Rounding to a double\<close>

text \<open>
  A fraction that is a double is rounded to itself, so the decimal that is a
  double exactly denotes it, and so do the digits Number::toString takes for it.
\<close>

lemma bitlen_upper: "n < 2 ^ bitlen n"
proof (induction n rule: bitlen.induct)
  case (1 n)
  show ?case
  proof (cases "n = 0")
    case True
    then show ?thesis by (simp add: bitlen.simps)
  next
    case False
    with 1 have "n div 2 < 2 ^ bitlen (n div 2)" by simp
    then have "n < 2 * 2 ^ bitlen (n div 2)" by linarith
    with False show ?thesis by (subst bitlen.simps) simp
  qed
qed

lemma bitlen_lower: "0 < n \<Longrightarrow> 2 ^ bitlen n \<le> 2 * n"
proof (induction n rule: bitlen.induct)
  case (1 n)
  show ?case
  proof (cases "n div 2 = 0")
    case True
    with 1(2) have "n = 1" by linarith
    moreover have "bitlen (Suc 0) = 1"
      by (simp add: bitlen.simps [of "Suc 0"] bitlen.simps [of 0])
    ultimately show ?thesis
      by simp
  next
    case False
    with 1 have "2 ^ bitlen (n div 2) \<le> 2 * (n div 2)" by simp
    then have "2 * 2 ^ bitlen (n div 2) \<le> 2 * n" by linarith
    with 1(2) show ?thesis by (subst bitlen.simps) simp
  qed
qed

lemma bitlen_pos: "0 < n \<Longrightarrow> 0 < bitlen n"
  by (subst bitlen.simps) simp

lemma floor_log2_lower:
  assumes "0 < p" "0 < q"
  shows "if 0 \<le> floor_log2 p q then q * 2 ^ nat (floor_log2 p q) \<le> p
         else q \<le> p * 2 ^ nat (- floor_log2 p q)"
proof -
  define d where "d = int (bitlen p) - int (bitlen q)"
  define t where "t \<longleftrightarrow> (if 0 \<le> d then q * 2 ^ nat d \<le> p else q \<le> p * 2 ^ nat (- d))"
  have fl: "floor_log2 p q = (if t then d else d - 1)"
    by (simp add: floor_log2_def d_def t_def Let_def)
  show ?thesis
  proof (cases t)
    case True
    then show ?thesis
      by (simp add: fl) (simp add: t_def)
  next
    case False
    have pl: "2 ^ bitlen p \<le> 2 * p" using assms(1) by (rule bitlen_lower)
    have qu: "q < 2 ^ bitlen q" by (rule bitlen_upper)
    have bp: "0 < bitlen p" using assms(1) by (rule bitlen_pos)
    show ?thesis
    proof (cases "0 \<le> d - 1")
      case True
      then have e: "bitlen p = Suc (bitlen q + nat (d - 1))"
        using bp by (simp add: d_def)
      have "q * 2 ^ nat (d - 1) \<le> 2 ^ bitlen q * 2 ^ nat (d - 1)"
        using qu by simp
      also have "\<dots> = 2 ^ (bitlen q + nat (d - 1))"
        by (simp add: power_add)
      also have "2 * \<dots> = 2 ^ bitlen p"
        by (simp add: e)
      finally have "2 * (q * 2 ^ nat (d - 1)) \<le> 2 * p"
        using pl by linarith
      with True False show ?thesis
        by (simp add: fl)
    next
      case neg: False
      then have e: "bitlen q = bitlen p + nat (- (d - 1)) - 1"
        using bp by (simp add: d_def)
      have "2 * q < 2 * 2 ^ bitlen q"
        using qu by simp
      also have "\<dots> = 2 ^ (bitlen p + nat (- (d - 1)))"
        using bp neg by (simp add: e flip: power_Suc)
      also have "\<dots> = 2 ^ bitlen p * 2 ^ nat (- (d - 1))"
        by (simp add: power_add)
      also have "\<dots> \<le> 2 * p * 2 ^ nat (- (d - 1))"
        using pl by simp
      finally have "q \<le> p * 2 ^ nat (- (d - 1))"
        by simp
      with neg False show ?thesis
        by (simp add: fl)
    qed
  qed
qed

lemma round_half_even_exact: "0 < d \<Longrightarrow> round_half_even (c * d) d = c"
  by (simp add: round_half_even_def)

lemma floor_log2_bound:
  assumes M: "0 < M" "M < 2 ^ 53" and q: "0 < q" and p: "0 < p"
    and v: "if 0 \<le> E then p = M * 2 ^ nat E * q else p * 2 ^ nat (- E) = M * q"
  shows "floor_log2 p q \<le> E + 52"
proof (rule ccontr)
  define b where "b = floor_log2 p q"
  assume "\<not> floor_log2 p q \<le> E + 52"
  then have big: "E + 53 \<le> b"
    by (simp add: b_def)
  have lb: "if 0 \<le> b then q * 2 ^ nat b \<le> p else q \<le> p * 2 ^ nat (- b)"
    unfolding b_def using p q by (rule floor_log2_lower)
  have Mq: "M * q < 2 ^ 53 * q"
    using M(2) q by simp
  show False
  proof (cases "0 \<le> E")
    case True
    define r where "r = nat (b - E - 53)"
    have nb: "nat b = nat E + 53 + r"
      using True big by (simp add: r_def)
    from True big lb have "q * 2 ^ nat b \<le> p"
      by simp
    also have "p = M * q * 2 ^ nat E"
      using v True by simp
    also have "\<dots> < 2 ^ 53 * q * 2 ^ nat E"
      using Mq by simp
    also have "\<dots> \<le> 2 ^ 53 * q * 2 ^ nat E * 2 ^ r"
      by simp
    also have "\<dots> = q * 2 ^ nat b"
      by (simp add: nb power_add)
    finally show False
      by simp
  next
    case False
    then have v': "p * 2 ^ nat (- E) = M * q"
      using v by simp
    show False
    proof (cases "0 \<le> b")
      case True
      define r where "r = nat (b - E - 53)"
      have nb: "nat b + nat (- E) = 53 + r"
        using True False big by (simp add: r_def)
      from True lb have "q * 2 ^ nat b * 2 ^ nat (- E) \<le> p * 2 ^ nat (- E)"
        by simp
      also have "\<dots> < 2 ^ 53 * q"
        using v' Mq by simp
      also have "\<dots> \<le> 2 ^ 53 * q * 2 ^ r"
        by simp
      also have "\<dots> = q * 2 ^ nat b * 2 ^ nat (- E)"
        by (simp add: power_add [symmetric] nb mult.assoc) (simp add: power_add)
      finally show False
        by simp
    next
      case neg: False
      define r where "r = nat (b - E - 53)"
      have nb: "nat (- E) = nat (- b) + 53 + r"
        using neg False big by (simp add: r_def)
      from neg lb have "q \<le> p * 2 ^ nat (- b)"
        by simp
      then have "q * 2 ^ 53 * 2 ^ r \<le> p * 2 ^ nat (- b) * 2 ^ 53 * 2 ^ r"
        by simp
      also have "\<dots> = p * 2 ^ nat (- E)"
        by (simp add: nb power_add)
      also have "\<dots> < 2 ^ 53 * q"
        using v' Mq by simp
      also have "\<dots> \<le> q * 2 ^ 53 * 2 ^ r"
        by simp
      finally show False
        by simp
    qed
  qed
qed

lemma round_mag_exact:
  assumes M: "0 < M" "M < 2 ^ 53" and E: "- 1074 \<le> E" and q: "0 < q"
    and v: "if 0 \<le> E then p = M * 2 ^ nat E * q else p * 2 ^ nat (- E) = M * q"
  shows "\<exists>j. round_mag p q = (M * 2 ^ j, E - int j)"
proof -
  have p: "0 < p"
  proof (cases "0 \<le> E")
    case True
    with v M(1) q show ?thesis by simp
  next
    case False
    with v have "p * 2 ^ nat (- E) = M * q" by simp
    with M(1) q show ?thesis by (cases "p = 0") simp_all
  qed
  define e where "e = max (floor_log2 p q - 52) (- 1074)"
  have le: "e \<le> E"
    using floor_log2_bound [OF M q p v] E by (simp add: e_def)
  define j where "j = nat (E - e)"
  have Ej: "E - int j = e"
    using le by (simp add: j_def)
  have rm: "round_mag p q =
      (if 0 \<le> e then round_half_even p (q * 2 ^ nat e) else round_half_even (p * 2 ^ nat (- e)) q, e)"
    by (simp add: round_mag_def e_def Let_def)
  have "(if 0 \<le> e then round_half_even p (q * 2 ^ nat e)
         else round_half_even (p * 2 ^ nat (- e)) q) = M * 2 ^ j"
  proof (cases "0 \<le> e")
    case True
    then have nE: "nat E = j + nat e"
      using le by (simp add: j_def)
    have "p = (M * 2 ^ j) * (q * 2 ^ nat e)"
      using v True le by (simp add: nE power_add)
    then have "round_half_even p (q * 2 ^ nat e) = M * 2 ^ j"
      using q round_half_even_exact [of "q * 2 ^ nat e" "M * 2 ^ j"] by simp
    with True show ?thesis by simp
  next
    case False
    have "p * 2 ^ nat (- e) = (M * 2 ^ j) * q"
    proof (cases "0 \<le> E")
      case True
      then have "j = nat E + nat (- e)"
        using False by (simp add: j_def)
      with v True show ?thesis
        by (simp add: power_add)
    next
      case neg: False
      then have "nat (- e) = nat (- E) + j"
        using le by (simp add: j_def)
      then have "p * 2 ^ nat (- e) = (p * 2 ^ nat (- E)) * 2 ^ j"
        by (simp add: power_add)
      also have "\<dots> = (M * q) * 2 ^ j"
        using v neg by simp
      finally show ?thesis
        by simp
    qed
    then have "round_half_even (p * 2 ^ nat (- e)) q = M * 2 ^ j"
      using q round_half_even_exact [of q "M * 2 ^ j"] by simp
    with False show ?thesis by simp
  qed
  then show ?thesis
    by (intro exI [of _ j]) (simp add: rm Ej)
qed

lemma twos_odd: "odd n \<Longrightarrow> twos n = 0"
  by (subst twos.simps) simp

lemma twos_double: "0 < n \<Longrightarrow> twos (2 * n) = Suc (twos n)"
  by (subst twos.simps) simp

lemma twos_shift: "0 < n \<Longrightarrow> twos (n * 2 ^ j) = twos n + j"
proof (induction j)
  case 0
  then show ?case by simp
next
  case (Suc j)
  have "twos (2 * (n * 2 ^ j)) = Suc (twos (n * 2 ^ j))"
    using Suc.prems by (intro twos_double) simp
  with Suc show ?case
    by (simp add: mult.commute mult.left_commute)
qed

lemma make_number_shift:
  assumes M: "0 < M" and fin: "0 \<le> E \<Longrightarrow> M * 2 ^ nat E < overflow_bound"
  shows "make_number neg (M * 2 ^ j) (E - int j) = make_number neg M E"
proof -
  have tw: "twos (M * 2 ^ j) = twos M + j"
    using M by (rule twos_shift)
  consider (a) "0 \<le> E - int j" | (b) "0 \<le> E" "E - int j < 0" | (c) "E < 0"
    by linarith
  then show ?thesis
  proof cases
    case a
    then have "nat E = j + nat (E - int j)"
      by simp
    then have "M * 2 ^ j * 2 ^ nat (E - int j) = M * 2 ^ nat E"
      by (simp add: power_add)
    moreover have "0 \<le> E"
      using a by linarith
    ultimately show ?thesis
      using a M by (simp add: make_number_def mult.assoc)
  next
    case b
    then have j: "j = nat E + nat (int j - E)"
      by simp
    have "M * 2 ^ j div 2 ^ nat (int j - E) = M * 2 ^ nat E"
      by (subst j) (simp add: power_add)
    moreover have "nat (int j - E) \<le> twos M + j"
      using b by simp
    ultimately show ?thesis
      using b M fin by (simp add: make_number_def tw)
  next
    case c
    then have n: "nat (int j - E) = nat (- E) + j"
      by simp
    have d1: "M * 2 ^ j div 2 ^ (nat (- E) + j) = M div 2 ^ nat (- E)"
      by (simp add: power_add mult.commute)
    have d2: "M * 2 ^ j div 2 ^ (twos M + j) = M div 2 ^ twos M"
      by (simp add: power_add mult.commute)
    from c M show ?thesis
      by (simp add: make_number_def tw n d1 d2)
  qed
qed

lemma make_number_odd:
  assumes "odd a" "e < 0"
  shows "make_number neg a e = Dbl (if neg then - int a else int a) e"
proof -
  have "twos a = 0"
    using assms(1) by (rule twos_odd)
  moreover have "0 < a"
    using assms(1) by (rule odd_pos)
  ultimately show ?thesis
    using assms(2) by (simp add: make_number_def)
qed

lemma make_number_Dbl:
  assumes "is_double (Dbl m e)"
  shows "make_number (m < 0) (nat \<bar>m\<bar>) e = Dbl m e"
proof -
  from assms have o: "odd m" and e: "e < 0"
    by (simp_all add: is_double_def)
  then have "odd (nat \<bar>m\<bar>)"
    by (simp add: even_nat_iff)
  then have "make_number (m < 0) (nat \<bar>m\<bar>) e
      = Dbl (if m < 0 then - int (nat \<bar>m\<bar>) else int (nat \<bar>m\<bar>)) e"
    using e by (rule make_number_odd)
  then show ?thesis
    by simp
qed

lemma double_integer:
  assumes "is_double (Intg i)" "i \<noteq> 0"
  shows "\<exists>M E. 0 < M \<and> M < 2 ^ 53 \<and> nat \<bar>i\<bar> = M * 2 ^ E \<and> M * 2 ^ E < overflow_bound"
proof -
  define a where "a = nat \<bar>i\<bar>"
  have a: "0 < a"
    using assms(2) by (simp add: a_def)
  from assms(1) have b: "bitlen a \<le> 1024"
    and low: "bitlen a \<le> 53 \<or> a mod 2 ^ (bitlen a - 53) = 0"
    by (simp_all add: is_double_def a_def)
  have "a < 2 ^ bitlen a"
    by (rule bitlen_upper)
  also have "(2::nat) ^ bitlen a \<le> 2 ^ 1024"
    using b by (intro power_increasing) simp_all
  finally have fin: "a < overflow_bound"
    by (simp only: overflow_bound_def)
  show ?thesis
  proof (cases "bitlen a \<le> 53")
    case True
    have "a < 2 ^ bitlen a"
      by (rule bitlen_upper)
    also have "(2::nat) ^ bitlen a \<le> 2 ^ 53"
      using True by (intro power_increasing) simp_all
    finally have "a < 2 ^ 53" .
    with a fin show ?thesis
      by (intro exI [of _ a] exI [of _ 0]) (simp add: a_def)
  next
    case False
    define E where "E = bitlen a - 53"
    define M where "M = a div 2 ^ E"
    from False low have "a mod 2 ^ E = 0"
      by (simp add: E_def)
    then have eq: "a = M * 2 ^ E"
      using div_mult_mod_eq [of a "2 ^ E"] by (simp add: M_def)
    have "a < 2 ^ bitlen a"
      by (rule bitlen_upper)
    also have "bitlen a = 53 + E"
      using False by (simp add: E_def)
    finally have "M * 2 ^ E < 2 ^ 53 * 2 ^ E"
      by (simp add: eq [symmetric] power_add)
    then have "M < 2 ^ 53"
      by simp
    moreover have "0 < M"
      using a eq by (cases "M = 0") simp_all
    ultimately show ?thesis
      using eq fin by (intro exI [of _ M] exI [of _ E]) (simp add: a_def)
  qed
qed

text \<open>The decimal that is a double exactly denotes that double.\<close>

lemma number_of_exact_digits:
  assumes d: "is_double x" and nz: "fst (magnitude x) \<noteq> 0" and fin: "x \<noteq> NaN" "\<And>neg. x \<noteq> Infinity neg"
  shows "number_of_decimal (is_negative x) (fst (exact_digits x))
           (snd (exact_digits x) - int (length (show_nat (fst (exact_digits x))))) = x"
proof (cases x)
  case (Intg i)
  with nz have i: "i \<noteq> 0"
    by (simp add: magnitude_def)
  from double_integer [OF d [unfolded Intg] i] obtain M E where
    M: "0 < M" "M < 2 ^ 53" and eq: "nat \<bar>i\<bar> = M * 2 ^ E" and lt: "M * 2 ^ E < overflow_bound"
    by blast
  obtain j where r: "round_mag (nat \<bar>i\<bar>) (Suc 0) = (M * 2 ^ j, int E - int j)"
    using round_mag_exact [of M "int E" "Suc 0" "nat \<bar>i\<bar>"] M eq by auto
  have "make_number (i < 0) (M * 2 ^ j) (int E - int j) = make_number (i < 0) M (int E)"
    using M(1) lt by (intro make_number_shift) simp_all
  also have "\<dots> = Intg i"
    using M(1) lt eq [symmetric] by (simp add: make_number_def)
  finally show ?thesis
    using i by (simp add: Intg exact_digits_def is_negative_def number_of_decimal_def r)
next
  case (Dbl m e)
  from d have dm: "odd m" "\<bar>m\<bar> < 2 ^ 53" "- 1074 \<le> e" "e < 0"
    by (simp_all add: Dbl is_double_def)
  define M where "M = nat \<bar>m\<bar>"
  define k where "k = nat (- e)"
  have M: "0 < M" "M < 2 ^ 53"
    using dm(1,2) by (auto simp: M_def)
  have "M * 5 ^ k * 2 ^ k = M * 10 ^ k"
    by (simp add: mult.assoc flip: power_mult_distrib)
  then obtain j where r: "round_mag (M * 5 ^ k) (10 ^ k) = (M * 2 ^ j, e - int j)"
    using round_mag_exact [of M e "10 ^ k" "M * 5 ^ k"] M dm(3,4) by (auto simp: k_def)
  have "make_number (m < 0) (M * 2 ^ j) (e - int j) = make_number (m < 0) M e"
    using M(1) dm(4) by (intro make_number_shift) simp_all
  also have "\<dots> = Dbl m e"
    unfolding M_def using d [unfolded Dbl] by (rule make_number_Dbl)
  finally show ?thesis
    using M(1) dm(4)
    by (simp add: Dbl exact_digits_def is_negative_def number_of_decimal_def r
        flip: M_def k_def)
qed (use fin in simp_all)




lemma bitlen_le: "n < 2 ^ k \<Longrightarrow> bitlen n \<le> k"
proof (cases "n = 0")
  case True
  then show ?thesis by (simp add: bitlen.simps)
next
  case False
  assume "n < 2 ^ k"
  with bitlen_lower [of n] False have "(2::nat) ^ bitlen n < 2 ^ Suc k"
    by simp
  then have "bitlen n < Suc k"
    by (simp only: power_strict_increasing_iff rel_simps)
  then show ?thesis by simp
qed

text \<open>The decimal text of an integer below \<open>2^53\<close> denotes that integer.\<close>

lemma number_of_decimal_integer:
  assumes "m < 2 ^ 53"
  shows "number_of_decimal neg m 0 = Intg (if neg then - int m else int m)"
proof (cases "m = 0")
  case True
  then show ?thesis by (simp add: number_of_decimal_def)
next
  case False
  define i where "i = (if neg then - int m else int m)"
  have m: "nat \<bar>i\<bar> = m" and neg: "is_negative (Intg i) = neg"
    using False by (auto simp: i_def is_negative_def)
  have "bitlen m \<le> 53"
    using assms by (rule bitlen_le)
  then have d: "is_double (Intg i)"
    by (simp add: is_double_def m)
  have nz: "fst (magnitude (Intg i)) \<noteq> 0"
    using False by (simp add: magnitude_def m)
  from number_of_exact_digits [OF d nz] show ?thesis
    by (simp add: exact_digits_def m neg flip: i_def)
qed

subsection \<open>Numbers in JSON\<close>

text \<open>The parser reads the text Number::toString gives for a double back.\<close>

lemma unat_digit: "d < 10 \<Longrightarrow> unat (of_nat (48 + d) :: 16 word) = 48 + d"
  by (rule unat_of_nat16) simp

lemma is_digit_digit: "d < 10 \<Longrightarrow> is_digit (of_nat (48 + d))"
  unfolding is_digit_def by (simp only: unat_digit) simp

lemma show_nat_digits: "list_all is_digit (show_nat n) \<and> show_nat n \<noteq> []"
proof (induction n rule: show_nat.induct)
  case (1 n)
  show ?case
  proof (cases "n < 10")
    case True
    then show ?thesis
      by (subst (1 2) show_nat.simps) (simp add: is_digit_digit del: of_nat_add)
  next
    case False
    have "n mod 10 < 10" by simp
    with False 1 show ?thesis
      by (subst (1 2) show_nat.simps) (simp add: is_digit_digit del: of_nat_add)
  qed
qed







lemma show_nat_0: "show_nat 0 = [0x30]"
  by (subst show_nat.simps) simp





lemma is_digit_simps [simp]:
  "is_digit 0x30" "\<not> is_digit 0x2E" "\<not> is_digit 0x65" "\<not> is_digit 0x2D" "\<not> is_digit 0x2B"
  by (simp_all add: is_digit_def)

















lemma format_digits_ascii:
  assumes "list_all is_digit ds" "ds \<noteq> []"
  shows "list_all (\<lambda>c. unat c < 0xD800) (format_digits ds n)"
proof -
  have dig: "unat c < 0xD800" if "is_digit c" for c
    using that by (simp add: is_digit_def)
  have ds: "unat c < 0xD800" if "c \<in> set ds" for c
    using that assms dig by (auto simp: list_all_iff)
  have sn: "unat c < 0xD800" if "c \<in> set (show_nat m)" for c m
    using that show_nat_digits [of m] dig by (auto simp: list_all_iff)
  have hd: "unat (hd ds) < 0xD800"
    using assms(2) ds by (cases ds) simp_all
  have tl: "unat c < 0xD800" if "c \<in> set (tl ds)" for c
    using that ds by (cases ds) simp_all
  show ?thesis
    unfolding format_digits_def list_all_iff
    by (auto dest: in_set_takeD in_set_dropD ds sn tl simp: hd)
qed

lemma unat_str: "c \<in> set (str s) \<Longrightarrow> unat c < 256"
proof -
  assume "c \<in> set (str s)"
  then obtain x where "c = of_nat (of_char x)"
    by (auto simp: str_def)
  moreover have "(of_char x :: nat) < 65536"
    using nat_of_char_less_256 [of x] by linarith
  ultimately show ?thesis
    using nat_of_char_less_256 [of x] by (simp only: unat_of_nat16)
qed

lemma well_formed_str: "well_formed (str s)"
  by (rule well_formed_ascii) (auto simp: list_all_iff dest!: unat_str)

lemma well_formed_Number_toString: "well_formed (Number_toString x)"
proof -
  have "well_formed ((if neg then [0x2D] else []) @ format_digits (show_nat s) n)" for neg s n
  proof (rule well_formed_ascii)
    show "list_all (\<lambda>c. unat c < 0xD800) ((if neg then [0x2D] else []) @ format_digits (show_nat s) n)"
      using format_digits_ascii [of "show_nat s" n] show_nat_digits [of s] by simp
  qed
  then show ?thesis
    by (cases x) (simp_all add: Number_toString_def Let_def well_formed_str)
qed


subsection \<open>JSON.stringify and JSON.parse\<close>



lemma not_ws [simp]:
  "\<not> json_ws 0x5B" "\<not> json_ws 0x7B" "\<not> json_ws 0x22" "\<not> json_ws 0x2C" "\<not> json_ws 0x5D"
  "\<not> json_ws 0x7D" "\<not> json_ws 0x3A" "\<not> json_ws 0x74" "\<not> json_ws 0x66" "\<not> json_ws 0x6E"
  "\<not> json_ws 0x2D"
  by (simp_all add: json_ws_def)










lemma value_start_Cons:
  "\<not> json_ws c \<Longrightarrow> c \<noteq> 0x5D \<Longrightarrow> c \<noteq> 0x7D \<Longrightarrow> value_start (c # cs)"
  by (simp add: value_start_def)





subsection \<open>The text of JSON.stringify has no lone surrogate\<close>

lemma well_formed_join:
  "list_all well_formed ts \<Longrightarrow> well_formed sep \<Longrightarrow> well_formed (join sep ts)"
  by (induction sep ts rule: join.induct) (simp_all add: well_formed_append)

lemma well_formed_bracket:
  "well_formed [a] \<Longrightarrow> well_formed [b] \<Longrightarrow> well_formed m \<Longrightarrow> well_formed (a # m @ [b])"
  using well_formed_append [of "[a]" "m @ [b]"] well_formed_append [of m "[b]"] by simp

lemma well_formed_Serialize:
  "SerializeJSONProperty v = Some t \<Longrightarrow> well_formed t"
  "list_all well_formed (SerializeJSONArray xs)"
  "list_all well_formed (SerializeJSONObject kvs)"
proof (induction v and xs and kvs arbitrary: t
    rule: SerializeJSONProperty_SerializeJSONArray_SerializeJSONObject.induct)
  case 1
  then show ?case by simp
next
  case 2
  then show ?case by (auto simp: well_formed_str)
next
  case (3 b)
  then show ?case by (auto simp: well_formed_str)
next
  case (4 n)
  then show ?case
    by (cases n) (auto simp: well_formed_str well_formed_Number_toString)
next
  case (5 s)
  then show ?case by (auto simp: well_formed_QuoteJSONString)
next
  case (6 xs)
  then show ?case
    by (auto intro!: well_formed_bracket well_formed_join
        simp: high_surrogate_def low_surrogate_def)
next
  case (7 kvs)
  then show ?case
    by (auto intro!: well_formed_bracket well_formed_join
        simp: high_surrogate_def low_surrogate_def)
next
  case 8
  then show ?case by simp
next
  case (9 x xs)
  then show ?case
    by (auto simp: well_formed_str split: option.splits)
next
  case 10
  then show ?case by simp
next
  case (11 k v kvs)
  have "well_formed (QuoteJSONString k @ [0x3A] @ t)" if "well_formed t" for t
    using that well_formed_append [of "[0x3A]" t]
    by (auto intro!: well_formed_append
        simp: well_formed_QuoteJSONString high_surrogate_def low_surrogate_def)
  with 11 show ?case
    by (auto split: option.splits)
qed

subsection \<open>The base64 format\<close>

text \<open>
  In the base64 format \<open>encodeQueryData\<close> throws on no payload, and its text takes
  the way back through \<open>decodeURIComponent\<close>, \<open>atob\<close> and \<open>decodeURIComponent\<close>.
\<close>

lemma encodeQueryData_Base64_total:
  "\<exists>t. encodeQueryData q Base64 = Inr t \<and> list_all (\<lambda>c. c \<noteq> 0x25 \<and> unat c < 0x80) t"
proof (cases "truthy q \<and> useful_keys q \<noteq> []")
  case False
  then show ?thesis
    by (auto simp: encodeQueryData_def)
next
  case True
  define json where "json = [0x7B] @ join [0x2C] (SerializeJSONObject (useful_query q)) @ [0x7D]"
  have s: "JSON_stringify (JObj (useful_query q)) = Some json"
    by (simp add: JSON_stringify_def json_def)
  then have "well_formed json"
    unfolding JSON_stringify_def by (rule well_formed_Serialize(1))
  then obtain uri where u: "encodeURIComponent json = Inr uri"
    using encodeURIComponent_total by blast
  then have "list_all (\<lambda>c. unat c < 0x80) uri"
    by (rule encodeURIComponent_ascii)
  then have "list_all (\<lambda>c. unat c \<le> 0xFF) uri"
    by (auto simp: list_all_iff)
  then obtain t where "btoa uri = Inr t" "list_all (\<lambda>c. c \<noteq> 0x25 \<and> unat c < 0x80) t"
    using atob_btoa by blast
  with True s u show ?thesis
    by (simp add: encodeQueryData_def)
qed

lemma encodeURIComponent_ascii_total:
  assumes "list_all (\<lambda>c. c \<noteq> 0x25 \<and> unat c < 0x80) t"
  shows "\<exists>u. encodeURIComponent t = Inr u"
proof -
  from assms have "list_all (\<lambda>c. unat c < 0xD800) t"
    by (auto simp: list_all_iff)
  then show ?thesis
    using well_formed_ascii encodeURIComponent_total by blast
qed








section \<open>Properties of the codec and of the initial state\<close>

text \<open>The definitions a concrete call of the codec unfolds.\<close>

lemmas js_eval = str_def prepend_def hex_upper_def hex_lower_def hex_value_def hex_octet_def uri_unescaped_def
  utf8_octets_def percent_octet_def percent_utf8_def continuation_def utf8_code_point_def
  UTF16EncodeCodePoint_def decode_escape_def base64_char_def base64_value_def btoa_def
  ascii_whitespace_def strip_padding_def atob_def show_int_def show_nat.simps UnicodeEscape_def json_escape_def
  high_surrogate_def low_surrogate_def quote_unit_def QuoteJSONString_def JSON_stringify_def
  json_ws_def skip_ws_def single_escape_def unescape_def is_digit_def digits_value_def
  number_of_decimal_integer parse_int_part_def parse_fraction_def parse_exponent_def
  parse_number_def parse_literal_def value_step_def elements_step_def
  members_step_def JSON_parse_def qs_stringify_def useful_keys_def useful_query_def assign_property_def
  encodeQueryData_def decode_base64_def decodeQueryData_def Get_def Let_def

text \<open>The definitions a concrete conversion of a number unfolds.\<close>

lemma replicate_numeral: "replicate (numeral k) x = x # replicate (pred_numeral k) x"
  by (simp add: numeral_eq_Suc)

lemmas num_eval = bitlen.simps twos.simps is_double_def floor_log2_def round_half_even_def
  round_mag_def overflow_bound_def make_number_def number_of_decimal_def is_negative_def
  magnitude_def decimal_position_def digits_ok_def digits_at_def exact_digits_def
  shortest_digits.simps format_digits_def Number_toString_def replicate_numeral

text \<open>
  C1. With cache and sync both enabled, and the cache and the link each decoding
  to a payload, the query payload the hook starts with is, key by key, the link
  payload's value where the link payload has the key, else the cache payload's
  where that has it, else the declared initial payload's. (Each payload names a
  key once, as every JavaScript object does.)
\<close>

theorem initial_payload_precedence:
  assumes on: "cache_on (cache opts)" "sync opts \<noteq> SyncOff"
      and c: "getFromCache ext (cache opts) (storageFormat opts) br = Inr (c, m1)"
      and u: "getFromUrl ext (storageFormat opts) br = Inr (u, m2)"
      and wf: "wf_props (own_props (initialSearchData opts))" "wf_props (own_props c)"
              "wf_props (own_props u)"
  shows "\<exists>e kvs. useSearch_init ext opts initialPageData br = Inr (e, m1 @ m2)
           \<and> searchDataRef e = JObj kvs
           \<and> (\<forall>k. Get kvs k =
                 (if k \<in> fst ` set (own_props u) then Get (own_props u) k
                  else if k \<in> fst ` set (own_props c) then Get (own_props c) k
                  else Get (own_props (initialSearchData opts)) k))"
proof -
  let ?kvs = "object_spread (object_spread (object_spread [] (initialSearchData opts)) c) u"
  have isd: "initial_search_data ext opts br = Inr (JObj ?kvs, m1 @ m2)"
    using on c u by (simp add: initial_search_data_def)
  have absent: "Get (own_props (initialSearchData opts)) k = JUndefined"
    if "k \<notin> fst ` set (own_props (initialSearchData opts))" for k
    using that by (simp add: Get_def map_of_eq_None_iff [THEN iffD2])
  have keys: "Get ?kvs k =
       (if k \<in> fst ` set (own_props u) then Get (own_props u) k
        else if k \<in> fst ` set (own_props c) then Get (own_props c) k
        else Get (own_props (initialSearchData opts)) k)" for k
    unfolding Get_object_spread [OF wf(3)] Get_object_spread [OF wf(2)]
      Get_object_spread [OF wf(1)]
    by (simp add: absent) (simp add: Get_def)
  show ?thesis
    using keys by (simp add: useSearch_init_def isd)
qed


theorem initial_payload_precedence_witness:
  "cache_on (cache \<lparr>initialSearchData = JObj [(str ''a'', JNum (Intg 0)), (str ''b'', JNum (Intg 5))],
       initialPagination = None, staticSearchData = JUndefined, initRequest = True,
       sync = SyncUrl, cache = CacheBool True, storageFormat = Base64\<rparr>)
   \<and> getFromCache \<lparr>qs_parse = JStr, new_PageQuery = \<lparr>page = 1, pageSize = 10\<rparr>\<rparr>
         (CacheBool True) Base64
         \<lparr>pathname = str ''/list'',
          searchParams = [(str ''_q'', str ''JTdCJTIyYSUyMiUzQTIlN0Q%3D'')],
          sessionStorage = [str ''/list_true_list_search_query'' \<mapsto> str ''JTdCJTIyYSUyMiUzQTElN0Q='']\<rparr>
       = Inr (JObj [(str ''a'', JNum (Intg 1))], [])
   \<and> getFromUrl \<lparr>qs_parse = JStr, new_PageQuery = \<lparr>page = 1, pageSize = 10\<rparr>\<rparr> Base64
         \<lparr>pathname = str ''/list'',
          searchParams = [(str ''_q'', str ''JTdCJTIyYSUyMiUzQTIlN0Q%3D'')],
          sessionStorage = [str ''/list_true_list_search_query'' \<mapsto> str ''JTdCJTIyYSUyMiUzQTElN0Q='']\<rparr>
       = Inr (JObj [(str ''a'', JNum (Intg 2))], [])
   \<and> (\<exists>e kvs.
         useSearch_init \<lparr>qs_parse = JStr, new_PageQuery = \<lparr>page = 1, pageSize = 10\<rparr>\<rparr>
           \<lparr>initialSearchData = JObj [(str ''a'', JNum (Intg 0)), (str ''b'', JNum (Intg 5))],
            initialPagination = None, staticSearchData = JUndefined, initRequest = True,
            sync = SyncUrl, cache = CacheBool True, storageFormat = Base64\<rparr>
           JUndefined
           \<lparr>pathname = str ''/list'',
            searchParams = [(str ''_q'', str ''JTdCJTIyYSUyMiUzQTIlN0Q%3D'')],
            sessionStorage = [str ''/list_true_list_search_query'' \<mapsto> str ''JTdCJTIyYSUyMiUzQTElN0Q='']\<rparr>
           = Inr (e, [])
         \<and> searchDataRef e = JObj kvs
         \<and> Get kvs (str ''a'') = JNum (Intg 2)
         \<and> Get kvs (str ''b'') = JNum (Intg 5))"
proof -
  let ?ext = "\<lparr>qs_parse = JStr, new_PageQuery = \<lparr>page = 1, pageSize = 10\<rparr>\<rparr>"
  let ?opts = "\<lparr>initialSearchData = JObj [(str ''a'', JNum (Intg 0)), (str ''b'', JNum (Intg 5))],
       initialPagination = None, staticSearchData = JUndefined, initRequest = True,
       sync = SyncUrl, cache = CacheBool True, storageFormat = Base64\<rparr>"
  let ?br = "\<lparr>pathname = str ''/list'',
          searchParams = [(str ''_q'', str ''JTdCJTIyYSUyMiUzQTIlN0Q%3D'')],
          sessionStorage = [str ''/list_true_list_search_query'' \<mapsto> str ''JTdCJTIyYSUyMiUzQTElN0Q='']\<rparr>"
  have on: "cache_on (cache ?opts)" "sync ?opts \<noteq> SyncOff"
    by simp_all
  have c: "getFromCache ?ext (cache ?opts) (storageFormat ?opts) ?br
             = Inr (JObj [(str ''a'', JNum (Intg 1))], [])"
    by (simp add: getFromCache_def cache_key_def SEARCH_CACHE_KEY_def js_eval)
  have u: "getFromUrl ?ext (storageFormat ?opts) ?br = Inr (JObj [(str ''a'', JNum (Intg 2))], [])"
    by (simp add: getFromUrl_def searchParams_get_def SEARCH_QUERY_KEY_def js_eval)
  have wf: "wf_props (own_props (initialSearchData ?opts))"
    "wf_props (own_props (JObj [(str ''a'', JNum (Intg 1))]))"
    "wf_props (own_props (JObj [(str ''a'', JNum (Intg 2))]))"
    by (simp_all add: wf_props_def str_inj)
  from initial_payload_precedence [OF on c u wf, of JUndefined]
  obtain e kvs where r: "useSearch_init ?ext ?opts JUndefined ?br = Inr (e, [])"
      "searchDataRef e = JObj kvs"
      "\<And>k. Get kvs k =
         (if k \<in> fst ` set (own_props (JObj [(str ''a'', JNum (Intg 2))]))
          then Get (own_props (JObj [(str ''a'', JNum (Intg 2))])) k
          else if k \<in> fst ` set (own_props (JObj [(str ''a'', JNum (Intg 1))]))
          then Get (own_props (JObj [(str ''a'', JNum (Intg 1))])) k
          else Get (own_props (initialSearchData ?opts)) k)"
    by auto
  have a: "Get kvs (str ''a'') = JNum (Intg 2)"
    by (simp add: r(3)) (simp add: Get_def)
  have b: "Get kvs (str ''b'') = JNum (Intg 5)"
    by (simp add: r(3) str_inj) (simp add: Get_def str_inj)
  from on c u r(1,2) a b show ?thesis
    by (intro conjI exI [of _ e] exI [of _ kvs]) simp_all
qed

text \<open>
  C7. In the query format \<open>encodeQueryData\<close> hands the payload it was given, not the
  filtered \<open>_query\<close>, to \<open>qs.stringify\<close>: for \<open>{a: "x", b: ""}\<close> the entry \<open>b\<close>, which
  is not useful, is in the encoded text. In the base64 format the same payload
  encodes as \<open>{a: "x"}\<close> does.
\<close>

theorem encode_query_format_keeps_useless_entry:
  "encodeQueryData (JObj [(str ''a'', JStr (str ''x'')), (str ''b'', JStr [])]) Query
     = Inr (str ''a=x&b='')
   \<and> encodeQueryData (JObj [(str ''a'', JStr (str ''x'')), (str ''b'', JStr [])]) Base64
     = encodeQueryData (JObj [(str ''a'', JStr (str ''x''))]) Base64"
  by (simp add: js_eval)

text \<open>
  C8. In the query format \<open>decodeQueryData\<close> calls \<open>decodeURIComponent\<close> outside the
  \<open>try\<close>. The text \<open>name=100%\<close>, which \<open>encodeQueryData\<close> itself writes in that
  format for the payload \<open>{name: "100%"}\<close>, makes it throw \<open>URIError\<close> to the caller,
  where in the base64 format the same failure is caught and gives the empty
  payload and a warning; and a hook that finds that text in its cache throws
  while it computes its initial payload.
\<close>

theorem decode_query_format_throws:
  "encodeQueryData (JObj [(str ''name'', JStr (str ''100%''))]) Query = Inr (str ''name=100%'')
   \<and> decodeQueryData \<lparr>qs_parse = JStr, new_PageQuery = \<lparr>page = 1, pageSize = 10\<rparr>\<rparr>
        (Some (str ''name=100%'')) Query = Inl URIError
   \<and> decodeQueryData \<lparr>qs_parse = JStr, new_PageQuery = \<lparr>page = 1, pageSize = 10\<rparr>\<rparr>
        (Some (str ''name=100%'')) Base64 = Inr (JObj [], [IncompleteQuery])
   \<and> useSearch_init \<lparr>qs_parse = JStr, new_PageQuery = \<lparr>page = 1, pageSize = 10\<rparr>\<rparr>
        \<lparr>initialSearchData = JObj [], initialPagination = None, staticSearchData = JObj [],
         initRequest = True, sync = SyncOff, cache = CacheBool True, storageFormat = Query\<rparr>
        JNull
        \<lparr>pathname = str ''/list'', searchParams = [],
         sessionStorage = [str ''/list_true_list_search_query'' \<mapsto> str ''name=100%'']\<rparr>
      = Inl URIError"
  by (simp add: js_eval useSearch_init_def initial_search_data_def getFromCache_def cache_key_def
      SEARCH_CACHE_KEY_def)

text \<open>
  In the base64 format \<open>decodeQueryData\<close> never throws: a text on
  which \<open>decodeURIComponent\<close>, \<open>atob\<close> or \<open>JSON.parse\<close> throws gives the empty payload
  and one logged warning, and any other text gives what it decodes to. In either
  format an absent or empty text gives the empty payload and no warning.
\<close>

lemma decode_base64_never_throws:
  "(\<forall>e. decodeQueryData ext data Base64 \<noteq> Inl e)
   \<and> decodeQueryData ext None format = Inr (JObj [], [])
   \<and> decodeQueryData ext (Some []) format = Inr (JObj [], [])
   \<and> (d \<noteq> [] \<longrightarrow> decode_base64 d = Inl x \<longrightarrow>
        decodeQueryData ext (Some d) Base64 = Inr (JObj [], [IncompleteQuery]))
   \<and> (d \<noteq> [] \<longrightarrow> decode_base64 d = Inr v \<longrightarrow>
        decodeQueryData ext (Some d) Base64 = Inr (v, []))"
  by (auto simp: decodeQueryData_def split: option.splits sum.splits)

lemma decode_base64_never_throws_example:
  "str ''JTdCJTIy'' \<noteq> []
   \<and> decode_base64 (str ''JTdCJTIy'') = Inl SyntaxError
   \<and> decodeQueryData \<lparr>qs_parse = JStr, new_PageQuery = \<lparr>page = 1, pageSize = 10\<rparr>\<rparr>
        (Some (str ''JTdCJTIy'')) Base64 = Inr (JObj [], [IncompleteQuery])
   \<and> str ''JTdCJTIyYSUyMiUzQTElN0Q='' \<noteq> []
   \<and> decode_base64 (str ''JTdCJTIyYSUyMiUzQTElN0Q='') = Inr (JObj [(str ''a'', JNum (Intg 1))])
   \<and> decodeQueryData \<lparr>qs_parse = JStr, new_PageQuery = \<lparr>page = 1, pageSize = 10\<rparr>\<rparr>
        (Some (str ''JTdCJTIyYSUyMiUzQTElN0Q='')) Base64 = Inr (JObj [(str ''a'', JNum (Intg 1))], [])"
proof -
  have n1: "str ''JTdCJTIy'' \<noteq> []" and n2: "str ''JTdCJTIyYSUyMiUzQTElN0Q='' \<noteq> []"
    by (simp_all add: str_def)
  have b1: "decode_base64 (str ''JTdCJTIy'') = Inl SyntaxError"
    by (simp add: js_eval)
  have b2: "decode_base64 (str ''JTdCJTIyYSUyMiUzQTElN0Q='') = Inr (JObj [(str ''a'', JNum (Intg 1))])"
    by (simp add: js_eval)
  from decode_base64_never_throws
         [of "\<lparr>qs_parse = JStr, new_PageQuery = \<lparr>page = 1, pageSize = 10\<rparr>\<rparr>" None Base64
             "str ''JTdCJTIy''" SyntaxError JNull]
       decode_base64_never_throws
         [of "\<lparr>qs_parse = JStr, new_PageQuery = \<lparr>page = 1, pageSize = 10\<rparr>\<rparr>" None Base64
             "str ''JTdCJTIyYSUyMiUzQTElN0Q=''" SyntaxError "JObj [(str ''a'', JNum (Intg 1))]"]
       n1 n2 b1 b2
  show ?thesis by simp
qed




text \<open>
  The number \<open>1.5\<close> is \<open>Dbl 3 (- 1)\<close>, that is \<open>3 * 2^(-1)\<close>: the payload \<open>{rate: 1.5}\<close> is
  written as \<open>{"rate":1.5}\<close> and read back.
\<close>

lemma base64_round_trip_example:
  "number_of_decimal False 15 (- 1) = Dbl 3 (- 1)
   \<and> Number_toString (Dbl 3 (- 1)) = str ''1.5''
   \<and> encodeQueryData (JObj [(str ''rate'', JNum (Dbl 3 (- 1)))]) Base64 = Inr (str ''JTdCJTIycmF0ZSUyMiUzQTEuNSU3RA=='')
   \<and> decodeQueryData \<lparr>qs_parse = JStr, new_PageQuery = \<lparr>page = 1, pageSize = 10\<rparr>\<rparr>
        (Some (str ''JTdCJTIycmF0ZSUyMiUzQTEuNSU3RA=='')) Base64 = Inr (JObj [(str ''rate'', JNum (Dbl 3 (- 1)))], [])"
proof -
  have n: "number_of_decimal False 15 (- 1) = Dbl 3 (- 1)"
    by (simp add: num_eval)
  have t: "Number_toString (Dbl 3 (- 1)) = str ''1.5''"
    by (simp add: num_eval show_nat.simps str_def Let_def)
  have e: "encodeQueryData (JObj [(str ''rate'', JNum (Dbl 3 (- 1)))]) Base64 = Inr (str ''JTdCJTIycmF0ZSUyMiUzQTEuNSU3RA=='')"
    by (simp add: js_eval t replicate_numeral)
  have d: "decodeQueryData \<lparr>qs_parse = JStr, new_PageQuery = \<lparr>page = 1, pageSize = 10\<rparr>\<rparr>
        (Some (str ''JTdCJTIycmF0ZSUyMiUzQTEuNSU3RA=='')) Base64 = Inr (JObj [(str ''rate'', JNum (Dbl 3 (- 1)))], [])"
    by (simp add: js_eval n)
  from n t e d show ?thesis
    by simp
qed


section \<open>Properties of the settlement\<close>

text \<open>
  C4. In the query format with \<open>sync\<close> \<open>'url'\<close> the \<open>finally\<close> callback can throw
  before it clears \<open>loading\<close>: for the payload \<open>{name: "\uD800"}\<close> (a lone surrogate)
  \<open>encodeURIComponent\<close> throws in \<open>generateNewUrl\<close>, \<open>loading\<close> stays set, the link is
  not written, and the promise of a query that was fulfilled is rejected with the
  \<open>URIError\<close>. In the base64 format the same payload is persisted and \<open>loading\<close> is
  cleared.
\<close>

theorem settle_query_format_leaves_loading:
  "searchRef_settle
     \<lparr>initialSearchData = JObj [], initialPagination = None, staticSearchData = JObj [],
      initRequest = True, sync = SyncUrl, cache = CacheBool False, storageFormat = Query\<rparr>
     (Fulfilled (JArr []))
     (\<lparr>loading = True, pageData = JNull, searchDataRef = JObj [(str ''name'', JStr [0xD800])],
       paginationRef = \<lparr>page = 1, pageSize = 10\<rparr>, staticParams = JObj [], storageRef = []\<rparr>,
      \<lparr>pathname = str ''/list'', searchParams = [], sessionStorage = Map.empty\<rparr>)
   = ((\<lparr>loading = True, pageData = JArr [], searchDataRef = JObj [(str ''name'', JStr [0xD800])],
        paginationRef = \<lparr>page = 1, pageSize = 10\<rparr>, staticParams = JObj [],
        storageRef = str ''name='' @ [0xD800]\<rparr>,
       \<lparr>pathname = str ''/list'', searchParams = [], sessionStorage = Map.empty\<rparr>),
      Rejected (Exception URIError))
   \<and> searchRef_settle
     \<lparr>initialSearchData = JObj [], initialPagination = None, staticSearchData = JObj [],
      initRequest = True, sync = SyncUrl, cache = CacheBool False, storageFormat = Base64\<rparr>
     (Fulfilled (JArr []))
     (\<lparr>loading = True, pageData = JNull, searchDataRef = JObj [(str ''name'', JStr [0xD800])],
       paginationRef = \<lparr>page = 1, pageSize = 10\<rparr>, staticParams = JObj [], storageRef = []\<rparr>,
      \<lparr>pathname = str ''/list'', searchParams = [], sessionStorage = Map.empty\<rparr>)
   = ((\<lparr>loading = False, pageData = JArr [], searchDataRef = JObj [(str ''name'', JStr [0xD800])],
        paginationRef = \<lparr>page = 1, pageSize = 10\<rparr>, staticParams = JObj [],
        storageRef = str ''JTdCJTIybmFtZSUyMiUzQSUyMiU1Q3VkODAwJTIyJTdE''\<rparr>,
       \<lparr>pathname = str ''/list'',
        searchParams = [(str ''_q'', str ''JTdCJTIybmFtZSUyMiUzQSUyMiU1Q3VkODAwJTIyJTdE'')],
        sessionStorage = Map.empty\<rparr>),
      Fulfilled JUndefined)"
  by (simp add: searchRef_settle_def storageFunc_def setToUrl_def generateNewUrl_def
      searchParams_get_def SEARCH_QUERY_KEY_def js_eval)

text \<open>
  Where persistence cannot throw (in the base64 format, with \<open>sync\<close> other than
  \<open>'url'\<close>, or when the query-format text has no lone surrogate), the settlement
  of a query that is fulfilled or rejected alike stores the encoded current
  payload in \<open>storageRef\<close> when \<open>sync\<close> or \<open>cache\<close> is on, puts it in the link when
  \<open>sync\<close> is \<open>'url'\<close>, puts it in the session storage when \<open>cache\<close> is on, and
  clears \<open>loading\<close>; the page data are those of a fulfilled query, and a rejection
  is handed on to the caller with its reason.
\<close>

lemma settle_persists:
  assumes ok: "storageFormat opts = Base64 \<or> sync opts \<noteq> SyncUrl
               \<or> well_formed (qs_stringify (searchDataRef e))"
  shows "\<exists>e' b'.
           searchRef_settle opts outcome (e, b)
             = ((e', b'), (case outcome of Fulfilled r \<Rightarrow> Fulfilled JUndefined | Rejected r \<Rightarrow> Rejected r))
           \<and> loading e' = False
           \<and> pageData e' = (case outcome of Fulfilled r \<Rightarrow> r | Rejected r \<Rightarrow> pageData e)
           \<and> searchDataRef e' = searchDataRef e
           \<and> (if sync opts \<noteq> SyncOff \<or> cache_on (cache opts)
               then encodeQueryData (searchDataRef e) (storageFormat opts) = Inr (storageRef e')
               else storageRef e' = storageRef e)
           \<and> (if sync opts = SyncUrl
               then generateNewUrl (storageRef e') b = Inr (searchParams b')
               else searchParams b' = searchParams b)
           \<and> (if cache_on (cache opts)
               then sessionStorage b' = (sessionStorage b)(cache_key (cache opts) b \<mapsto> storageRef e')
               else sessionStorage b' = sessionStorage b)"
proof -
  define e1 where "e1 = (case outcome of Fulfilled result \<Rightarrow> e\<lparr>pageData := result\<rparr> | Rejected r \<Rightarrow> e)"
  have e1: "searchDataRef e1 = searchDataRef e" "storageRef e1 = storageRef e"
    "pageData e1 = (case outcome of Fulfilled r \<Rightarrow> r | Rejected r \<Rightarrow> pageData e)"
    by (simp_all add: e1_def split: settled.splits)
  have settle: "searchRef_settle opts outcome (e, b) =
      (case storageFunc opts (searchDataRef e) (e1, b) of
         ((e2, b2), Some x) \<Rightarrow> ((e2, b2), Rejected (Exception x))
       | ((e2, b2), None) \<Rightarrow>
           ((e2\<lparr>loading := False\<rparr>, b2),
            (case outcome of Fulfilled result \<Rightarrow> Fulfilled JUndefined | Rejected r \<Rightarrow> Rejected r)))"
    unfolding searchRef_settle_def Let_def fst_conv snd_conv e1_def [symmetric] e1(1) by (rule refl)
  consider (off) "sync opts = SyncOff" "\<not> cache_on (cache opts)"
    | (on) "sync opts \<noteq> SyncOff \<or> cache_on (cache opts)"
    by blast
  then show ?thesis
  proof cases
    case off
    then show ?thesis
      by (simp add: settle storageFunc_def e1)
  next
    case on
    have "\<exists>t. encodeQueryData (searchDataRef e) (storageFormat opts) = Inr t
            \<and> (sync opts = SyncUrl \<longrightarrow> (\<exists>ps. generateNewUrl t b = Inr ps))"
    proof (cases "storageFormat opts")
      case Query
      show ?thesis
      proof (cases "sync opts = SyncUrl")
        case False
        then show ?thesis
          by (simp add: encodeQueryData_def Query)
      next
        case True
        with ok Query have "well_formed (qs_stringify (searchDataRef e))"
          by simp
        then obtain u where "encodeURIComponent (qs_stringify (searchDataRef e)) = Inr u"
          using encodeURIComponent_total by blast
        then show ?thesis
          by (simp add: encodeQueryData_def Query generateNewUrl_def Let_def)
      qed
    next
      case Base64
      obtain t where t: "encodeQueryData (searchDataRef e) Base64 = Inr t"
        "list_all (\<lambda>c. c \<noteq> 0x25 \<and> unat c < 0x80) t"
        using encodeQueryData_Base64_total by blast
      obtain u where "encodeURIComponent t = Inr u"
        using encodeURIComponent_ascii_total [OF t(2)] by blast
      then have "\<exists>ps. generateNewUrl t b = Inr ps"
        by (simp add: generateNewUrl_def Let_def)
      with t(1) Base64 show ?thesis
        by simp
    qed
    then obtain t where t: "encodeQueryData (searchDataRef e) (storageFormat opts) = Inr t"
      and url: "sync opts = SyncUrl \<Longrightarrow> \<exists>ps. generateNewUrl t b = Inr ps"
      by blast
    show ?thesis
    proof (cases "sync opts = SyncUrl")
      case True
      then obtain ps where ps: "generateNewUrl t b = Inr ps"
        using url by blast
      with True t show ?thesis
        by (simp add: settle storageFunc_def setToUrl_def setCache_def cache_key_def e1)
    next
      case False
      with on t show ?thesis
        by (simp add: settle storageFunc_def setCache_def cache_key_def e1)
    qed
  qed
qed

lemma settle_persists_example:
  "\<exists>e' b'.
     searchRef_settle
       \<lparr>initialSearchData = JObj [], initialPagination = None, staticSearchData = JObj [],
        initRequest = True, sync = SyncUrl, cache = CacheBool True, storageFormat = Query\<rparr>
       (Rejected (Value (JStr (str ''timeout''))))
       (\<lparr>loading = True, pageData = JNull, searchDataRef = JObj [(str ''name'', JStr (str ''x''))],
         paginationRef = \<lparr>page = 1, pageSize = 10\<rparr>, staticParams = JObj [], storageRef = []\<rparr>,
        \<lparr>pathname = str ''/list'', searchParams = [], sessionStorage = Map.empty\<rparr>)
       = ((e', b'), Rejected (Value (JStr (str ''timeout''))))
     \<and> loading e' = False
     \<and> pageData e' = JNull
     \<and> storageRef e' = str ''name=x''
     \<and> searchParams b' = [(str ''_q'', str ''name%3Dx'')]
     \<and> sessionStorage b' = [str ''/list_true_list_search_query'' \<mapsto> str ''name=x'']"
proof -
  have wf: "well_formed (qs_stringify (JObj [(str ''name'', JStr (str ''x''))]))"
    by (simp add: js_eval)
  have enc: "encodeQueryData (JObj [(str ''name'', JStr (str ''x''))]) Query = Inr (str ''name=x'')"
    by (simp add: js_eval)
  have url: "generateNewUrl (str ''name=x'')
      \<lparr>pathname = str ''/list'', searchParams = [], sessionStorage = Map.empty\<rparr>
    = Inr [(str ''_q'', str ''name%3Dx'')]"
    by (simp add: generateNewUrl_def searchParams_get_def SEARCH_QUERY_KEY_def js_eval)
  have key: "cache_key (CacheBool True)
      \<lparr>pathname = str ''/list'', searchParams = [], sessionStorage = Map.empty\<rparr>
    = str ''/list_true_list_search_query''"
    by (simp add: cache_key_def SEARCH_CACHE_KEY_def str_def)
  from settle_persists
    [of "\<lparr>initialSearchData = JObj [], initialPagination = None, staticSearchData = JObj [],
          initRequest = True, sync = SyncUrl, cache = CacheBool True, storageFormat = Query\<rparr>"
        "\<lparr>loading = True, pageData = JNull, searchDataRef = JObj [(str ''name'', JStr (str ''x''))],
          paginationRef = \<lparr>page = 1, pageSize = 10\<rparr>, staticParams = JObj [], storageRef = []\<rparr>"
        "Rejected (Value (JStr (str ''timeout'')))"
        "\<lparr>pathname = str ''/list'', searchParams = [], sessionStorage = Map.empty\<rparr>"]
    wf
  obtain e' b' where r: "searchRef_settle
       \<lparr>initialSearchData = JObj [], initialPagination = None, staticSearchData = JObj [],
        initRequest = True, sync = SyncUrl, cache = CacheBool True, storageFormat = Query\<rparr>
       (Rejected (Value (JStr (str ''timeout''))))
       (\<lparr>loading = True, pageData = JNull, searchDataRef = JObj [(str ''name'', JStr (str ''x''))],
         paginationRef = \<lparr>page = 1, pageSize = 10\<rparr>, staticParams = JObj [], storageRef = []\<rparr>,
        \<lparr>pathname = str ''/list'', searchParams = [], sessionStorage = Map.empty\<rparr>)
       = ((e', b'), Rejected (Value (JStr (str ''timeout''))))"
    "loading e' = False" "pageData e' = JNull"
    "encodeQueryData (JObj [(str ''name'', JStr (str ''x''))]) Query = Inr (storageRef e')"
    "generateNewUrl (storageRef e')
       \<lparr>pathname = str ''/list'', searchParams = [], sessionStorage = Map.empty\<rparr>
      = Inr (searchParams b')"
    "sessionStorage b' = [cache_key (CacheBool True)
       \<lparr>pathname = str ''/list'', searchParams = [], sessionStorage = Map.empty\<rparr>
      \<mapsto> storageRef e']"
    by auto
  from r(4) enc have st: "storageRef e' = str ''name=x''"
    by simp
  from r(5) url have "searchParams b' = [(str ''_q'', str ''name%3Dx'')]"
    by (simp add: st)
  with r st key show ?thesis
    by (intro exI [of _ e'] exI [of _ b']) simp
qed


section \<open>Properties of the format renders\<close>

text \<open>The definitions a concrete call of a render unfolds.\<close>

lemmas fmt_eval = DEFAULT_EMPTY_VALUE_def DEFAULT_FORMAT_OPTIONS_def with_defaults_def
  catch_return_def date_factory_def number_factory_def int_factory_def money_factory_def
  constant_factory_def join_factory_def DEFAULT_FORMAT_RENDER_FACTORY_def formatGenerate_step_def
  formatGenerate_def useColumns_render_def rendered_def isEmpty_def ToNumber_def
  ToIntegerOrInfinity_def ToInt32_def StrWhiteSpaceChar_def parseFloat_def radix_digit_def
  in_radix_def radix_value_def parseInt_def toFixed_def GetV_def Array_join_def object_spread_def
  assign_property_def Get_def show_nat.simps str_def is_digit_def digits_value_def
  number_of_decimal_integer Number_toString_def magnitude_def is_negative_def fixed_digits_def
  show_int_def Let_def

text \<open>
  C6. The render of the \<open>number\<close> format shows the text \<open>NaN\<close> for the value
  \<open>abc\<close>, and the render of the \<open>int\<close> format gives the number \<open>NaN\<close> for it:
  \<open>parseFloat\<close> and \<open>parseInt\<close> return \<open>NaN\<close> for a text that is no number and throw
  nothing, so the \<open>catch\<close> that returns the raw value is not reached.
\<close>

theorem number_format_renders_NaN:
  "rendered (useColumns_render env
       (JObj [(str ''title'', JStr (str ''Amount'')), (str ''format'', JStr (str ''number''))]))
     (JStr (str ''abc'')) record = Inr (JStr (str ''NaN''))
   \<and> rendered (useColumns_render env
       (JObj [(str ''title'', JStr (str ''Amount'')),
              (str ''format'', JArr [JStr (str ''number''), JObj [(str ''digits'', JNum (Intg 2))]])]))
     (JStr (str ''abc'')) record = Inr (JStr (str ''NaN''))
   \<and> rendered (useColumns_render env
       (JObj [(str ''title'', JStr (str ''Count'')),
              (str ''format'', JArr [JStr (str ''int''), JObj [(str ''radix'', JNum (Intg 10))]])]))
     (JStr (str ''abc'')) record = Inr (JNum NaN)"
  by (simp add: fmt_eval)

text \<open>
  C9. For a format given by its bare name \<open>formatGenerate\<close> hands the factory \<open>null\<close>
  for its options, so the render has no default option: the empty string renders
  as \<open>undefined\<close>, not as the default of the column. For the same format given
  with parameters, \<open>["number", {}]\<close>, the render has the default of the column,
  here the placeholder \<open>-\<close>.
\<close>

theorem bare_format_name_loses_default:
  "rendered (useColumns_render env
       (JObj [(str ''title'', JStr (str ''Amount'')), (str ''format'', JStr (str ''number''))]))
     (JStr []) record = Inr JUndefined
   \<and> rendered (useColumns_render env
       (JObj [(str ''title'', JStr (str ''Amount'')), (str ''format'', JStr (str ''money'')),
              (str ''default'', JStr (str ''n/a''))]))
     (JStr []) record = Inr JUndefined
   \<and> rendered (useColumns_render env
       (JObj [(str ''title'', JStr (str ''Amount'')),
              (str ''format'', JArr [JStr (str ''number''), JObj []])]))
     (JStr []) record = Inr (JStr (str ''-''))"
  by (simp add: fmt_eval)

end
